theory Spec2Isabelle
  imports Complex_Main "HOL-Library.Sublist" "HOL-Library.Log_Nat"
begin

chapter \<open>Productivity tracker: the embedding\<close>

text \<open>
  A shallow embedding of the browser extension's background script
  (\<^verbatim>\<open>background.js\<close>, and its older duplicate kept next to the content script),
  of the popup's and the dashboard's category logic, and of the Express routes of the
  backend.  Module-level variables become a record that every handler takes and returns,
  \<^verbatim>\<open>Date.now()\<close> becomes an argument, and the services of the host platform that the
  repository only calls (the URL parser, the date parser, the validators of
  express-validator, the regular expressions of the database) are arguments of the
  functions that call them, so every theorem holds for whatever these services compute.
\<close>

section \<open>String methods\<close>

text \<open>
  Strings are lists of \<^typ>\<open>char\<close>.  \<^verbatim>\<open>s.startsWith(p)\<close> and \<^verbatim>\<open>s.includes(sub)\<close>
  are written as the recursions they are and related to \<^const>\<open>prefix\<close> and
  \<^const>\<open>sublist\<close> below.
\<close>

fun startsWith :: "string \<Rightarrow> string \<Rightarrow> bool" where
  "startsWith s [] = True"
| "startsWith [] (p # ps) = False"
| "startsWith (c # cs) (p # ps) = (c = p \<and> startsWith cs ps)"

fun js_includes :: "string \<Rightarrow> string \<Rightarrow> bool" where
  "js_includes [] sub = (sub = [])"
| "js_includes (c # cs) sub = (startsWith (c # cs) sub \<or> js_includes cs sub)"

text \<open>
  \<^verbatim>\<open>s.replace(pat, '')\<close> with a string pattern removes the first occurrence of
  \<^verbatim>\<open>pat\<close> and nothing else.
\<close>

fun removeFirst :: "string \<Rightarrow> string \<Rightarrow> string" where
  "removeFirst pat [] = []"
| "removeFirst pat (c # cs) =
     (if startsWith (c # cs) pat then drop (length pat) (c # cs)
      else c # removeFirst pat cs)"

text \<open>
  \<^verbatim>\<open>toLowerCase\<close> on the ASCII range, where host names live: the letters A to Z move
  to a to z and every other character stays.
\<close>

definition toLowerChar :: "char \<Rightarrow> char" where
  "toLowerChar c =
     (let n = (of_char c :: nat) in if 65 \<le> n \<and> n \<le> 90 then char_of (n + 32) else c)"

definition toLowerCase :: "string \<Rightarrow> string" where
  "toLowerCase s = map toLowerChar s"

text \<open>
  \<^verbatim>\<open>trim\<close> (of \<^verbatim>\<open>String.prototype\<close>, and the sanitizer of that name, which strips what
  the regular expression \<^verbatim>\<open>\s\<close> matches) removes the white space and the line
  terminators of ECMAScript at both ends.  A \<^typ>\<open>char\<close> is a code unit below 256, and
  among these they are tab, line feed, vertical tab, form feed, carriage return, space
  and the no-break space U+00A0.  The others (U+1680, U+2000 to U+200A, U+2028, U+2029,
  U+202F, U+205F, U+3000 and U+FEFF) lie beyond \<^typ>\<open>char\<close>.
\<close>

definition isSpace :: "char \<Rightarrow> bool" where
  "isSpace c = ((of_char c :: nat) \<in> {9, 10, 11, 12, 13, 32, 160})"

definition js_trim :: "string \<Rightarrow> string" where
  "js_trim s = rev (dropWhile isSpace (rev (dropWhile isSpace s)))"

section \<open>Numbers\<close>

text \<open>
  A JavaScript number is an IEEE 754 double.  Integers are doubles exactly up to
  \<open>2\<^sup>5\<^sup>3\<close>, and so are their sums and differences: the clock readings, durations
  and counts of the model are integers, taken to stay below that bound.  A quotient or
  a product is the exact result rounded to the nearest double, the tie going to the
  even significand.
  \<open>double x\<close> is that rounding with an exponent that has no bounds (subnormal numbers
  are out of reach of the quotients below): with \<open>2\<^sup>e \<le> \<bar>x\<bar> < 2\<^sup>e\<^sup>+\<^sup>1\<close> the doubles near
  \<open>x\<close> are the multiples of \<open>2\<^sup>e\<^sup>-\<^sup>5\<^sup>2\<close>.  The largest double is just below \<open>2\<^sup>1\<^sup>0\<^sup>2\<^sup>4\<close>, and
  JavaScript has \<^verbatim>\<open>Infinity\<close> exactly where this rounding gives \<open>2\<^sup>1\<^sup>0\<^sup>2\<^sup>4\<close> or more; such a
  value stands for \<^verbatim>\<open>Infinity\<close> here, which no sum, product or comparison below tells
  apart from it.
\<close>

definition ilog2 :: "rat \<Rightarrow> int" where
  "ilog2 x =
     (let (a, b) = quotient_of x; d = bitlen a - bitlen b
      in if x < 2 powi d then d - 1 else d)"

definition roundHalfEven :: "rat \<Rightarrow> int" where
  "roundHalfEven x =
     (let n = \<lfloor>x\<rfloor>; r = x - of_int n
      in if r < 1 / 2 then n else if 1 / 2 < r then n + 1 else if even n then n else n + 1)"

definition double :: "rat \<Rightarrow> rat" where
  "double x =
     (if x = 0 then 0
      else let k = 52 - ilog2 \<bar>x\<bar> in of_int (roundHalfEven (x * 2 powi k)) / 2 powi k)"

text \<open>The operators \<^verbatim>\<open>/\<close>, \<^verbatim>\<open>*\<close>, \<^verbatim>\<open>+\<close> and \<^verbatim>\<open>-\<close> (the divisors below are never
  zero), and the three roundings of \<^verbatim>\<open>Math\<close>, which are exact; \<^verbatim>\<open>Math.round\<close> sends a
  half upwards.\<close>

definition js_div :: "rat \<Rightarrow> rat \<Rightarrow> rat" where
  "js_div a b = double (a / b)"

definition js_mul :: "rat \<Rightarrow> rat \<Rightarrow> rat" where
  "js_mul a b = double (a * b)"




definition parseInt :: "int \<Rightarrow> rat" where
  "parseInt n = double (of_int n)"


definition Math_floor :: "rat \<Rightarrow> int" where
  "Math_floor x = \<lfloor>x\<rfloor>"


definition Math_round :: "rat \<Rightarrow> int" where
  "Math_round x = \<lfloor>x + 1 / 2\<rfloor>"

section \<open>Classification of a domain\<close>

subsection \<open>The tracker's classifier\<close>

text \<open>
  \<^verbatim>\<open>chrome.storage.local\<close> holds the two lists under the key \<^verbatim>\<open>categories\<close>; a
  missing key reads as two empty lists.  Categories are the strings the code returns.
\<close>

record categories =
  productive :: "string list"
  unproductive :: "string list"

definition defaultCategories :: categories where
  "defaultCategories =
     \<lparr>productive =
        [''github.com'', ''stackoverflow.com'', ''docs.google.com'', ''notion.so'',
         ''trello.com'', ''asana.com'', ''slack.com'', ''zoom.us'', ''figma.com'',
         ''codepen.io'', ''developer.mozilla.org'', ''w3schools.com''],
      unproductive =
        [''facebook.com'', ''twitter.com'', ''instagram.com'', ''youtube.com'',
         ''reddit.com'', ''tiktok.com'', ''netflix.com'', ''twitch.tv'',
         ''pinterest.com'', ''snapchat.com'']\<rparr>"

definition storedCategories :: "categories option \<Rightarrow> categories" where
  "storedCategories stored =
     (case stored of None \<Rightarrow> \<lparr>productive = [], unproductive = []\<rparr> | Some c \<Rightarrow> c)"

definition getWebsiteCategory :: "categories option \<Rightarrow> string \<Rightarrow> string" where
  "getWebsiteCategory stored domain =
     (let categories = storedCategories stored in
      if list_ex (\<lambda>site. js_includes domain site) (productive categories) then ''productive''
      else if list_ex (\<lambda>site. js_includes domain site) (unproductive categories)
        then ''unproductive''
      else ''neutral'')"

subsection \<open>The dashboard's classifier\<close>

text \<open>
  The dashboard keeps one object from host name to category.  Reading a property of a
  plain object also finds the members every object inherits from
  \<^verbatim>\<open>Object.prototype\<close>, which are functions or objects and so truthy; own properties
  are strings, truthy unless empty.
\<close>

datatype jsvalue = JUndefined | JString string | JInherited

definition objectPrototypeMembers :: "string list" where
  "objectPrototypeMembers =
     [''constructor'', ''hasOwnProperty'', ''isPrototypeOf'', ''propertyIsEnumerable'',
      ''toLocaleString'', ''toString'', ''valueOf'', ''__proto__'', ''__defineGetter__'',
      ''__defineSetter__'', ''__lookupGetter__'', ''__lookupSetter__'']"

definition getProperty :: "(string \<rightharpoonup> string) \<Rightarrow> string \<Rightarrow> jsvalue" where
  "getProperty obj key =
     (case obj key of
        Some v \<Rightarrow> JString v
      | None \<Rightarrow> if key \<in> set objectPrototypeMembers then JInherited else JUndefined)"

fun truthy :: "jsvalue \<Rightarrow> bool" where
  "truthy JUndefined = False"
| "truthy (JString s) = (s \<noteq> [])"
| "truthy JInherited = True"

definition productiveKeywords :: "string list" where
  "productiveKeywords =
     [''docs'', ''learn'', ''education'', ''tutorial'', ''course'', ''study'', ''work'']"

definition unproductiveKeywords :: "string list" where
  "unproductiveKeywords = [''social'', ''entertainment'', ''game'', ''video'', ''stream'']"

definition categorizeWebsite :: "(string \<rightharpoonup> string) \<Rightarrow> string \<Rightarrow> jsvalue" where
  "categorizeWebsite websiteCategories hostname =
     (if truthy (getProperty websiteCategories hostname)
        then getProperty websiteCategories hostname
      else
        let lowerHostname = toLowerCase hostname in
        if list_ex (\<lambda>keyword. js_includes lowerHostname keyword) productiveKeywords
          then JString ''productive''
        else if list_ex (\<lambda>keyword. js_includes lowerHostname keyword) unproductiveKeywords
          then JString ''unproductive''
        else JString ''neutral'')"

definition getDefaultCategories :: "string \<rightharpoonup> string" where
  "getDefaultCategories =
     map_of
       [(''github.com'', ''productive''), (''stackoverflow.com'', ''productive''),
        (''developer.mozilla.org'', ''productive''), (''docs.google.com'', ''productive''),
        (''codepen.io'', ''productive''), (''medium.com'', ''productive''),
        (''linkedin.com'', ''productive''), (''coursera.org'', ''productive''),
        (''udemy.com'', ''productive''), (''khan-academy.org'', ''productive''),
        (''w3schools.com'', ''productive''), (''freecodecamp.org'', ''productive''),
        (''facebook.com'', ''unproductive''), (''instagram.com'', ''unproductive''),
        (''twitter.com'', ''unproductive''), (''youtube.com'', ''unproductive''),
        (''netflix.com'', ''unproductive''), (''tiktok.com'', ''unproductive''),
        (''reddit.com'', ''unproductive''), (''twitch.tv'', ''unproductive''),
        (''pinterest.com'', ''unproductive''), (''snapchat.com'', ''unproductive'')]"

subsection \<open>Editing the two lists\<close>

text \<open>
  The popup reads the lists, edits them and sends them back to be stored.  The category
  is the string the button carries; with any other string the lookup
  \<^verbatim>\<open>categories[category]\<close> is undefined, the method call on it throws, the
  \<^verbatim>\<open>catch\<close> logs, and nothing is sent: the lists stay as they were.
\<close>

definition addWebsiteToCategory ::
  "string \<Rightarrow> string \<Rightarrow> categories option \<Rightarrow> categories option" where
  "addWebsiteToCategory category website stored =
     (let categories = storedCategories stored in
      if category = ''productive'' then
        let others = filter (\<lambda>site. site \<noteq> website) (unproductive categories);
            own = productive categories
        in Some \<lparr>productive = (if website \<in> set own then own else own @ [website]),
                 unproductive = others\<rparr>
      else if category = ''unproductive'' then
        let others = filter (\<lambda>site. site \<noteq> website) (productive categories);
            own = unproductive categories
        in Some \<lparr>productive = others,
                 unproductive = (if website \<in> set own then own else own @ [website])\<rparr>
      else stored)"

definition removeWebsiteFromCategory ::
  "string \<Rightarrow> string \<Rightarrow> categories option \<Rightarrow> categories option" where
  "removeWebsiteFromCategory category website stored =
     (let categories = storedCategories stored in
      if category = ''productive'' then
        Some (categories\<lparr>productive := filter (\<lambda>site. site \<noteq> website) (productive categories)\<rparr>)
      else if category = ''unproductive'' then
        Some (categories\<lparr>unproductive :=
                filter (\<lambda>site. site \<noteq> website) (unproductive categories)\<rparr>)
      else stored)"

definition disjointLists :: "categories option \<Rightarrow> bool" where
  "disjointLists stored =
     (set (productive (storedCategories stored)) \<inter> set (unproductive (storedCategories stored)) = {})"

section \<open>The domain of a URL\<close>

text \<open>
  \<^verbatim>\<open>new URL(url).hostname\<close> is the browser's: \<open>URL_hostname url\<close> is the host name it
  finds, or \<open>None\<close> where the constructor throws.  The background script removes a
  leading \<^verbatim>\<open>www.\<close> (the regular expression \<^verbatim>\<open>/^www\./\<close>); its older duplicate calls
  \<^verbatim>\<open>replace('www.', '')\<close>, which removes the first occurrence wherever it stands.
  Both return the URL itself when it does not parse.
\<close>

definition getDomain :: "(string \<Rightarrow> string option) \<Rightarrow> string \<Rightarrow> string" where
  "getDomain URL_hostname url =
     (case URL_hostname url of
        None \<Rightarrow> url
      | Some hostname \<Rightarrow> if startsWith hostname ''www.'' then drop 4 hostname else hostname)"

definition getDomain_duplicate :: "(string \<Rightarrow> string option) \<Rightarrow> string \<Rightarrow> string" where
  "getDomain_duplicate URL_hostname url =
     (case URL_hostname url of
        None \<Rightarrow> url
      | Some hostname \<Rightarrow> removeFirst ''www.'' hostname)"

text \<open>
  For the worked examples: the host names the browser's parser gives for three URLs,
  and a string that does not parse, since it has no scheme.
\<close>

definition sampleHostnames :: "string \<Rightarrow> string option" where
  "sampleHostnames =
     map_of
       [(''https://www.github.com/explore'', ''www.github.com''),
        (''https://github.com/explore'', ''github.com''),
        (''http://static.www.example.com/logo.png'', ''static.www.example.com'')]"

definition malformedUrl :: string where
  "malformedUrl = ''not a url''"

section \<open>The session tracker\<close>

text \<open>
  The three module-level variables of the background script.  \<^verbatim>\<open>startTime\<close> is in
  milliseconds; \<^verbatim>\<open>null\<close> is \<open>None\<close>.  A tab's \<^verbatim>\<open>url\<close> and \<^verbatim>\<open>title\<close> are strings,
  the empty string standing for an undefined one as well (both are falsy).
\<close>

record tab =
  tab_url :: string
  tab_title :: string

record tracker =
  currentTab :: "tab option"
  startTime :: "int option"
  isTracking :: bool

definition idle :: tracker where
  "idle = \<lparr>currentTab = None, startTime = None, isTracking = False\<rparr>"

text \<open>The call \<^verbatim>\<open>saveTimeEntry(domain, timeSpent, url, title)\<close>, which writes the day's
  bucket in local storage and then posts the entry to the backend.\<close>

datatype saved = SaveTimeEntry (saved_domain: string) (saved_timeSpent: int)
  (saved_url: string) (saved_title: string)

definition startTracking :: "int \<Rightarrow> tab \<Rightarrow> tracker" where
  "startTracking now t = \<lparr>currentTab = Some t, startTime = Some now, isTracking = True\<rparr>"

text \<open>
  \<^verbatim>\<open>stopTracking\<close> returns at once unless all three variables are truthy (a start time
  of \<open>0\<close> is falsy): the last branch of each test below.  Otherwise it converts the
  elapsed milliseconds to whole seconds with \<^verbatim>\<open>Math.floor(timeSpentMs / 1000)\<close>, saves
  when \<^verbatim>\<open>timeSpent > 1\<close>, and resets the variables.  The result is the new state and
  the call to \<^verbatim>\<open>saveTimeEntry\<close>, if any.
\<close>

definition stopTracking ::
  "(string \<Rightarrow> string option) \<Rightarrow> int \<Rightarrow> tracker \<Rightarrow> tracker \<times> saved option" where
  "stopTracking URL_hostname now tr =
     (case (currentTab tr, startTime tr) of
        (Some t, Some start) \<Rightarrow>
          if isTracking tr \<and> start \<noteq> 0 then
            let timeSpentMs = now - start;
                timeSpent = Math_floor (js_div (of_int timeSpentMs) 1000);
                domain = getDomain URL_hostname (tab_url t)
            in (idle,
                if timeSpent > 1
                  then Some (SaveTimeEntry domain timeSpent (tab_url t) (tab_title t))
                else None)
          else (tr, None)
      | _ \<Rightarrow> (tr, None))"

text \<open>
  The duplicate measures in milliseconds: ``only save if time spent is more than 1
  second'', \<^verbatim>\<open>timeSpent > 1000\<close>, and saves the milliseconds.
\<close>

definition stopTracking_duplicate ::
  "(string \<Rightarrow> string option) \<Rightarrow> int \<Rightarrow> tracker \<Rightarrow> tracker \<times> saved option" where
  "stopTracking_duplicate URL_hostname now tr =
     (case (currentTab tr, startTime tr) of
        (Some t, Some start) \<Rightarrow>
          if isTracking tr \<and> start \<noteq> 0 then
            let timeSpent = now - start;
                domain = getDomain_duplicate URL_hostname (tab_url t)
            in (idle,
                if timeSpent > 1000
                  then Some (SaveTimeEntry domain timeSpent (tab_url t) (tab_title t))
                else None)
          else (tr, None)
      | _ \<Rightarrow> (tr, None))"

text \<open>
  \<^verbatim>\<open>handleTabChange\<close> stops the open session, looks the tab up and starts a session
  when the tab has a URL that does not start with \<^verbatim>\<open>chrome://\<close>.
  \<open>tabs tabId\<close> is what \<^verbatim>\<open>chrome.tabs.get\<close> resolves to, \<open>None\<close> where it rejects:
  the rejection is caught and logged by the \<^verbatim>\<open>catch\<close> block, after
  \<^verbatim>\<open>stopTracking\<close> has run.  The two calls of \<^verbatim>\<open>Date.now()\<close> are \<open>now\<close> (in
  \<^verbatim>\<open>stopTracking\<close>) and \<open>later\<close> (in \<^verbatim>\<open>startTracking\<close>).
\<close>

definition handleTabChange ::
  "(string \<Rightarrow> string option) \<Rightarrow> (nat \<Rightarrow> tab option) \<Rightarrow> int \<Rightarrow> int \<Rightarrow> nat \<Rightarrow> tracker
     \<Rightarrow> tracker \<times> saved option" where
  "handleTabChange URL_hostname tabs now later tabId tr =
     (let (stopped, emitted) = stopTracking URL_hostname now tr in
      case tabs tabId of
        None \<Rightarrow> (stopped, emitted)
      | Some t \<Rightarrow>
          if tab_url t \<noteq> [] \<and> \<not> startsWith (tab_url t) ''chrome://''
            then (startTracking later t, emitted)
          else (stopped, emitted))"

text \<open>For the worked examples: a browser with one tab, number 7, whose URL does not
  parse.\<close>

definition sampleTabs :: "nat \<Rightarrow> tab option" where
  "sampleTabs tabId =
     (if tabId = 7 then Some \<lparr>tab_url = malformedUrl, tab_title = ''untitled''\<rparr> else None)"

section \<open>Retention of the day buckets\<close>

text \<open>
  \<^verbatim>\<open>chrome.storage.local\<close> as the list of its keys and values.  \<open>Date_parse s\<close> is the
  time value of \<^verbatim>\<open>new Date(s)\<close>, \<open>None\<close> for an invalid date (which compares false
  with everything); \<open>daysBefore n now\<close> is the time value after
  \<^verbatim>\<open>setDate(getDate() - n)\<close> on a date created at \<open>now\<close>.
\<close>

definition cleanupOldData ::
  "(string \<Rightarrow> int option) \<Rightarrow> (nat \<Rightarrow> int \<Rightarrow> int) \<Rightarrow> int \<Rightarrow> (string \<times> 'v) list
     \<Rightarrow> (string \<times> 'v) list" where
  "cleanupOldData Date_parse daysBefore now all =
     (let cutoff = daysBefore 30 now;
          toRemove =
            filter
              (\<lambda>key.
                 if startsWith key ''timeData_'' then
                   (case Date_parse (removeFirst ''timeData_'' key) of
                      None \<Rightarrow> False
                    | Some date \<Rightarrow> date < cutoff)
                 else False)
              (map fst all)
      in if toRemove \<noteq> [] then filter (\<lambda>(key, v). key \<notin> set toRemove) all else all)"

text \<open>
  A day bucket that has expired: its key is \<^verbatim>\<open>timeData_\<close> followed by a text that
  parses as a date before the cutoff.
\<close>

definition expiredBucket :: "(string \<Rightarrow> int option) \<Rightarrow> int \<Rightarrow> string \<Rightarrow> bool" where
  "expiredBucket Date_parse cutoff key =
     (\<exists>day date. key = ''timeData_'' @ day \<and> Date_parse day = Some date \<and> date < cutoff)"

text \<open>
  For the worked examples: the time values of three days (midnight UTC), calendar days
  of 86400000 milliseconds, and a storage with the category lists, two day buckets and
  a key that carries the prefix without a date.  Values are the numbers of sites in a
  bucket.
\<close>

definition sampleDates :: "string \<Rightarrow> int option" where
  "sampleDates =
     map_of
       [(''2024-01-01'', 1704067200000),
        (''2024-02-14'', 1707868800000),
        (''2024-03-01'', 1709251200000)]"

definition utcDaysBefore :: "nat \<Rightarrow> int \<Rightarrow> int" where
  "utcDaysBefore n now = now - int n * 86400000"

definition sampleStorage :: "(string \<times> nat) list" where
  "sampleStorage =
     [(''categories'', 2), (''timeData_2024-01-01'', 5), (''timeData_backup'', 1),
      (''timeData_2024-03-01'', 3)]"

section \<open>The backend\<close>

text \<open>
  A stored document of the collection \<^verbatim>\<open>time_entries\<close>, with the fields of the
  schema that the routes read (the identifier and the bookkeeping dates that the
  database adds are left out).  Dates are time values in milliseconds; a duration is a
  number of whole seconds, as every route that writes one checks with \<^verbatim>\<open>isInt\<close>.
\<close>

record timeEntry =
  hostname :: string
  url :: "string option"
  title :: "string option"
  duration :: int
  category :: string
  timestamp :: int
  userId :: "string option"

definition categoryNames :: "string list" where
  "categoryNames = [''productive'', ''unproductive'', ''neutral'']"

text \<open>A route answers 400 when a validator fails, 500 when the handler's
  \<^verbatim>\<open>catch\<close> runs, and otherwise with a body.\<close>

datatype 'a response = BadRequest | ServerError | Success 'a

subsection \<open>Filters\<close>

text \<open>
  A query parameter is used when it is truthy: present and not empty.  A date bound is
  \<^verbatim>\<open>new Date(s)\<close>, and \<open>Date_parse s\<close> is its time value, \<open>None\<close> for an invalid date.
  The list hands its filter to \<^verbatim>\<open>find\<close> and \<^verbatim>\<open>countDocuments\<close>, which cast it against
  the schema: an invalid date cannot be cast and the call throws.  \<open>parsedBound\<close> is
  \<open>None\<close> for that failure, \<open>Some None\<close> for no bound and \<open>Some (Some t)\<close> for the bound
  \<open>t\<close>.
\<close>

fun parsedBound :: "(string \<Rightarrow> int option) \<Rightarrow> string option \<Rightarrow> int option option" where
  "parsedBound Date_parse None = Some None"
| "parsedBound Date_parse (Some s) =
     (if s = [] then Some None
      else case Date_parse s of None \<Rightarrow> None | Some t \<Rightarrow> Some (Some t))"

definition optionally :: "('a \<Rightarrow> bool) \<Rightarrow> 'a option \<Rightarrow> bool" where
  "optionally check v = (case v of None \<Rightarrow> True | Some x \<Rightarrow> check x)"

definition userFilter :: "string option \<Rightarrow> timeEntry \<Rightarrow> bool" where
  "userFilter user e =
     (case user of None \<Rightarrow> True | Some u \<Rightarrow> if u = [] then True else userId e = Some u)"

definition periodFilter ::
  "(string \<Rightarrow> int option) \<Rightarrow> string option \<Rightarrow> string option \<Rightarrow> string option
     \<Rightarrow> (timeEntry \<Rightarrow> bool) option" where
  "periodFilter Date_parse startDate endDate user =
     (case (parsedBound Date_parse startDate, parsedBound Date_parse endDate) of
        (Some gte, Some lte) \<Rightarrow>
          Some (\<lambda>e. userFilter user e \<and>
                    optionally (\<lambda>t. t \<le> timestamp e) gte \<and>
                    optionally (\<lambda>t. timestamp e \<le> t) lte)
      | _ \<Rightarrow> None)"

text \<open>
  The summary builds the same filter object but hands it to an aggregation pipeline,
  and a pipeline is not cast against the schema: nothing throws on a bound that is an
  invalid date.  The driver writes a date as its time value; \<open>invalidDate\<close> is the
  time value that it writes for an invalid date.
\<close>

definition pipelineBound :: "(string \<Rightarrow> int option) \<Rightarrow> int \<Rightarrow> string option \<Rightarrow> int option" where
  "pipelineBound Date_parse invalidDate bound =
     (case bound of
        None \<Rightarrow> None
      | Some s \<Rightarrow>
          if s = [] then None
          else case Date_parse s of None \<Rightarrow> Some invalidDate | Some t \<Rightarrow> Some t)"

definition pipelineFilter ::
  "(string \<Rightarrow> int option) \<Rightarrow> int \<Rightarrow> string option \<Rightarrow> string option \<Rightarrow> string option
     \<Rightarrow> timeEntry \<Rightarrow> bool" where
  "pipelineFilter Date_parse invalidDate startDate endDate user e =
     (userFilter user e \<and>
      optionally (\<lambda>t. t \<le> timestamp e) (pipelineBound Date_parse invalidDate startDate) \<and>
      optionally (\<lambda>t. timestamp e \<le> t) (pipelineBound Date_parse invalidDate endDate))"

subsection \<open>The paginated list\<close>

text \<open>
  The query string of \<^verbatim>\<open>GET /api/time-entries\<close>.  \<^verbatim>\<open>isInt\<close> turns down every
  \<^verbatim>\<open>page\<close> and \<^verbatim>\<open>limit\<close> that is not the decimal text of an integer; \<open>q_page\<close> and
  \<open>q_limit\<close> are the integers that the texts denote, of any length.  \<open>isISO8601\<close> is
  the validator of that name.  \<open>regex pattern\<close> is the case-insensitive search for
  \<open>pattern\<close> in a string, \<open>None\<close> when the database refuses the pattern.
\<close>

record listQuery =
  q_page :: "int option"
  q_limit :: "int option"
  q_startDate :: "string option"
  q_endDate :: "string option"
  q_hostname :: "string option"
  q_category :: "string option"
  q_userId :: "string option"


definition listFilter ::
  "(string \<Rightarrow> int option) \<Rightarrow> (string \<Rightarrow> (string \<Rightarrow> bool) option) \<Rightarrow> listQuery
     \<Rightarrow> (timeEntry \<Rightarrow> bool) option" where
  "listFilter Date_parse regex q =
     (case periodFilter Date_parse (q_startDate q) (q_endDate q) (q_userId q) of
        None \<Rightarrow> None
      | Some period \<Rightarrow>
          (case (case q_hostname q of
                   None \<Rightarrow> Some (\<lambda>s. True)
                 | Some pattern \<Rightarrow> if pattern = [] then Some (\<lambda>s. True) else regex pattern) of
             None \<Rightarrow> None
           | Some found \<Rightarrow>
               Some (\<lambda>e. period e \<and> found (hostname e) \<and>
                         (case q_category q of
                            None \<Rightarrow> True
                          | Some c \<Rightarrow> if c = [] then True else category e = c))))"




subsection \<open>Bulk creation\<close>

text \<open>
  One element of the \<^verbatim>\<open>entries\<close> array of \<^verbatim>\<open>POST /api/time-entries/bulk\<close>, with
  the types the validators ask for.
\<close>

record entryBody =
  b_hostname :: string
  b_duration :: int
  b_category :: string
  b_userId :: "string option"
  b_timestamp :: "string option"
  b_url :: "string option"
  b_title :: "string option"

definition validBulkBody :: "(string \<Rightarrow> bool) \<Rightarrow> entryBody list \<Rightarrow> bool" where
  "validBulkBody isISO8601 body =
     (1 \<le> length body \<and> length body \<le> 100 \<and>
      list_all
        (\<lambda>entry. b_hostname entry \<noteq> [] \<and> 1 \<le> b_duration entry \<and>
                  b_category entry \<in> set categoryNames \<and>
                  optionally isISO8601 (b_timestamp entry))
        body)"

text \<open>
  The document that \<^verbatim>\<open>insertMany\<close> builds from an entry, or \<open>None\<close> when the schema
  turns it down: the host name is trimmed (by the sanitizer and again by the schema) and
  required, so it must not be empty afterwards; the time stamp must be a valid date.
\<close>

definition toDocument :: "(string \<Rightarrow> int option) \<Rightarrow> int \<Rightarrow> entryBody \<Rightarrow> timeEntry option" where
  "toDocument Date_parse now entry =
     (case (case b_timestamp entry of
              None \<Rightarrow> Some now
            | Some s \<Rightarrow> if s = [] then Some now else Date_parse s) of
        None \<Rightarrow> None
      | Some t \<Rightarrow>
          if js_trim (b_hostname entry) = [] \<or> b_duration entry < 1 \<or>
             b_category entry \<notin> set categoryNames
            then None
          else Some \<lparr>hostname = js_trim (b_hostname entry),
                     url = map_option js_trim (b_url entry),
                     title = map_option js_trim (b_title entry),
                     duration = b_duration entry,
                     category = b_category entry,
                     timestamp = t,
                     userId = b_userId entry\<rparr>)"

text \<open>The handler returns the response and the collection.  \<^verbatim>\<open>insertMany\<close> validates
  every document before it writes any.  The entries without a time stamp get the time of
  the request, \<open>now\<close>.\<close>

definition postTimeEntriesBulk ::
  "(string \<Rightarrow> bool) \<Rightarrow> (string \<Rightarrow> int option) \<Rightarrow> int \<Rightarrow> entryBody list \<Rightarrow> timeEntry list
     \<Rightarrow> timeEntry list response \<times> timeEntry list" where
  "postTimeEntriesBulk isISO8601 Date_parse now body db =
     (if \<not> validBulkBody isISO8601 body then (BadRequest, db)
      else
        case those (map (toDocument Date_parse now) body) of
          None \<Rightarrow> (ServerError, db)
        | Some savedEntries \<Rightarrow> (Success savedEntries, db @ savedEntries))"

subsection \<open>The summary\<close>

record summaryQuery =
  s_startDate :: "string option"
  s_endDate :: "string option"
  s_userId :: "string option"

text \<open>One output row of the first aggregation pipeline: the matching entries of one
  category.\<close>

record categoryGroup =
  g_category :: string
  g_totalTime :: int
  g_entryCount :: nat
  g_uniqueWebsiteCount :: nat

definition groupByCategory :: "timeEntry list \<Rightarrow> categoryGroup list" where
  "groupByCategory es =
     map (\<lambda>c. let members = filter (\<lambda>e. category e = c) es
              in \<lparr>g_category = c,
                  g_totalTime = sum_list (map duration members),
                  g_entryCount = length members,
                  g_uniqueWebsiteCount = length (remdups (map hostname members))\<rparr>)
         (remdups (map category es))"

text \<open>The \<^verbatim>\<open>forEach\<close> over the rows: \<open>(totalTime, productiveTime)\<close>.\<close>

definition summaryTotals :: "categoryGroup list \<Rightarrow> int \<times> int" where
  "summaryTotals groups =
     fold (\<lambda>item (grandTotal, productiveTotal).
             (grandTotal + g_totalTime item,
              if g_category item = ''productive'' then g_totalTime item else productiveTotal))
          groups (0, 0)"

definition score :: "int \<Rightarrow> int \<Rightarrow> int" where
  "score productiveTotal grandTotal =
     (if 0 < grandTotal then Math_round (js_mul (js_div (of_int productiveTotal) (of_int grandTotal)) 100)
      else 0)"

record summaryBody =
  totalTime :: int
  productiveTime :: int
  productivityScore :: int
  categoryBreakdown :: "categoryGroup list"

text \<open>The handler; the list of top web sites, a second pipeline over the same entries,
  is not part of the model.\<close>

definition getAnalyticsSummary ::
  "(string \<Rightarrow> bool) \<Rightarrow> (string \<Rightarrow> int option) \<Rightarrow> int \<Rightarrow> summaryQuery \<Rightarrow> timeEntry list
     \<Rightarrow> summaryBody response" where
  "getAnalyticsSummary isISO8601 Date_parse invalidDate q db =
     (if \<not> (optionally isISO8601 (s_startDate q) \<and> optionally isISO8601 (s_endDate q))
        then BadRequest
      else
        let matching = pipelineFilter Date_parse invalidDate
                         (s_startDate q) (s_endDate q) (s_userId q);
            groups = groupByCategory (filter matching db);
            (grandTotal, productiveTotal) = summaryTotals groups
        in Success
             \<lparr>totalTime = grandTotal,
              productiveTime = productiveTotal,
              productivityScore = score productiveTotal grandTotal,
              categoryBreakdown = groups\<rparr>)"

subsection \<open>Data for the worked examples\<close>

text \<open>
  A validator that accepts the three sample days, and one that accepts the week date
  \<^verbatim>\<open>2024-W01\<close> as well, which is ISO 8601 and which \<^verbatim>\<open>Date\<close> does not parse; a
  database search that treats the pattern as plain text; the query without any
  parameter, the query for one page and the query from that week on; a log of 120 visits
  one second apart; the two entries of the summary scenario; two entries whose productive
  share is 57.5 percent; and one element of a bulk request.
\<close>

definition isSampleDate :: "string \<Rightarrow> bool" where
  "isSampleDate s = (sampleDates s \<noteq> None)"


definition isSampleISO8601 :: "string \<Rightarrow> bool" where
  "isSampleISO8601 s = (isSampleDate s \<or> s = ''2024-W01'')"




definition visit :: "string \<Rightarrow> int \<Rightarrow> string \<Rightarrow> int \<Rightarrow> timeEntry" where
  "visit host seconds cat time =
     \<lparr>hostname = host, url = None, title = None, duration = seconds, category = cat,
      timestamp = time, userId = None\<rparr>"


definition allTime :: summaryQuery where
  "allTime = \<lparr>s_startDate = None, s_endDate = None, s_userId = None\<rparr>"

definition scenarioLog :: "timeEntry list" where
  "scenarioLog =
     [visit ''github.com'' 120 ''productive'' 1709251200000,
      visit ''facebook.com'' 60 ''unproductive'' 1709251320000]"

definition tieLog :: "timeEntry list" where
  "tieLog =
     [visit ''github.com'' 23 ''productive'' 1709251200000,
      visit ''facebook.com'' 17 ''unproductive'' 1709251223000]"

definition sampleEntry :: entryBody where
  "sampleEntry =
     \<lparr>b_hostname = '' github.com '', b_duration = 90, b_category = ''productive'',
      b_userId = None, b_timestamp = Some ''2024-03-01'', b_url = None, b_title = None\<rparr>"

chapter \<open>Properties\<close>

section \<open>String methods\<close>

lemma startsWith_prefix: "startsWith s p = prefix p s"
  by (induction s p rule: startsWith.induct) auto

lemma js_includes_sublist: "js_includes s sub = sublist sub s"
  by (induction s) (auto simp: startsWith_prefix sublist_Cons_right)

lemma js_includes_self: "js_includes s s"
  by (simp add: js_includes_sublist)

lemma list_ex_includes:
  "list_ex (\<lambda>site. js_includes h site) xs = (\<exists>site\<in>set xs. sublist site h)"
  by (simp add: list_ex_iff js_includes_sublist)

lemma removeFirst_absent: "\<not> sublist pat s \<Longrightarrow> removeFirst pat s = s"
  by (induction s) (auto simp: startsWith_prefix sublist_Cons_right)

lemma removeFirst_prefix: "startsWith s pat \<Longrightarrow> removeFirst pat s = drop (length pat) s"
  by (cases s) auto

section \<open>Numbers\<close>

lemma two_powi_bitlen_le: "0 < a \<Longrightarrow> (2::rat) powi (bitlen a - 1) \<le> of_int a"
proof -
  assume a: "0 < a"
  then have "2 ^ nat (bitlen a - 1) \<le> a"
    using bitlen_bounds [of a] by simp
  then have "(of_int (2 ^ nat (bitlen a - 1)) :: rat) \<le> of_int a"
    by (simp only: of_int_le_iff)
  moreover have "0 \<le> bitlen a - 1"
    using a bitlen_eq_zero_iff [of a] bitlen_nonneg [of a] by linarith
  ultimately show ?thesis
    by (simp add: power_int_def)
qed

lemma bitlen_less_two_powi: "0 < b \<Longrightarrow> of_int b < (2::rat) powi (bitlen b)"
proof -
  assume b: "0 < b"
  then have "b < 2 ^ nat (bitlen b)"
    using bitlen_bounds [of b] by simp
  then have "(of_int b :: rat) < of_int (2 ^ nat (bitlen b))"
    by (simp only: of_int_less_iff)
  then show ?thesis
    using bitlen_nonneg [of b] by (simp add: power_int_def)
qed

lemma ilog2_le: "0 < x \<Longrightarrow> 2 powi (ilog2 x) \<le> x"
proof -
  assume x: "0 < x"
  obtain a b where q: "quotient_of x = (a, b)"
    by (cases "quotient_of x")
  then have b: "0 < b" and xab: "x = of_int a / of_int b"
    using quotient_of_denom_pos [OF q] quotient_of_div [OF q] by simp_all
  with x have a: "0 < a"
    by (simp add: zero_less_divide_iff)
  let ?d = "bitlen a - bitlen b"
  show ?thesis
  proof (cases "x < 2 powi ?d")
    case False
    then show ?thesis by (simp add: ilog2_def q)
  next
    case True
    have "(2::rat) powi (?d - 1) = 2 powi (bitlen a - 1) / 2 powi (bitlen b)"
      by (simp add: power_int_diff)
    also have "\<dots> \<le> of_int a / 2 powi (bitlen b)"
      using two_powi_bitlen_le [OF a] by (simp add: divide_right_mono)
    also have "\<dots> \<le> of_int a / of_int b"
      using bitlen_less_two_powi [OF b] a b by (simp add: frac_le)
    finally have "(2::rat) powi (?d - 1) \<le> x"
      by (simp only: xab)
    moreover have "ilog2 x = ?d - 1"
      using True by (simp add: ilog2_def q)
    ultimately show ?thesis by simp
  qed
qed

lemma ilog2_bound: "0 < x \<Longrightarrow> x < 2 powi n \<Longrightarrow> ilog2 x < n"
proof -
  assume "0 < x" "x < 2 powi n"
  then have lt: "(2::rat) powi (ilog2 x) < 2 powi n"
    using ilog2_le [of x] by simp
  show ?thesis
  proof (rule ccontr)
    assume "\<not> ilog2 x < n"
    then have "(2::rat) powi n \<le> 2 powi (ilog2 x)"
      by (intro power_int_increasing) simp_all
    with lt show False by simp
  qed
qed

lemma roundHalfEven_le: "x \<le> of_int m \<Longrightarrow> roundHalfEven x \<le> m"
  unfolding roundHalfEven_def Let_def by (auto; linarith)

lemma roundHalfEven_ge: "of_int m \<le> x \<Longrightarrow> m \<le> roundHalfEven x"
  unfolding roundHalfEven_def Let_def by (auto; linarith)


lemma double_pos_eq:
  "0 < x \<Longrightarrow> double x = of_int (roundHalfEven (x * 2 powi (52 - ilog2 x))) / 2 powi (52 - ilog2 x)"
  by (simp add: double_def Let_def)

lemma double_le:
  assumes "0 < x" and "x \<le> c" and "c * 2 powi (52 - ilog2 x) = of_int m"
  shows "double x \<le> c"
proof -
  let ?p = "(2::rat) powi (52 - ilog2 x)"
  have p: "0 < ?p" by simp
  have "x * ?p \<le> of_int m"
    using assms(2) p by (simp add: assms(3) [symmetric] mult_right_mono)
  then have "roundHalfEven (x * ?p) \<le> m"
    by (rule roundHalfEven_le)
  then have "(of_int (roundHalfEven (x * ?p)) :: rat) \<le> of_int m"
    by (simp only: of_int_le_iff)
  then have "of_int (roundHalfEven (x * ?p)) / ?p \<le> of_int m / ?p"
    using p by (simp add: divide_right_mono)
  also have "of_int m / ?p = c"
    using p by (simp add: assms(3) [symmetric])
  finally show ?thesis
    by (simp only: double_pos_eq [OF assms(1)])
qed

lemma double_ge:
  assumes "0 < x" and "c \<le> x" and "c * 2 powi (52 - ilog2 x) = of_int m"
  shows "c \<le> double x"
proof -
  let ?p = "(2::rat) powi (52 - ilog2 x)"
  have p: "0 < ?p" by simp
  have "of_int m \<le> x * ?p"
    using assms(2) p by (simp add: assms(3) [symmetric] mult_right_mono)
  then have "m \<le> roundHalfEven (x * ?p)"
    by (rule roundHalfEven_ge)
  then have "(of_int m :: rat) \<le> of_int (roundHalfEven (x * ?p))"
    by (simp only: of_int_le_iff)
  then have "of_int m / ?p \<le> of_int (roundHalfEven (x * ?p)) / ?p"
    using p by (simp add: divide_right_mono)
  moreover have "of_int m / ?p = c"
    using p by (simp add: assms(3) [symmetric])
  ultimately show ?thesis
    by (simp only: double_pos_eq [OF assms(1)])
qed

lemma double_nonneg: "0 \<le> x \<Longrightarrow> 0 \<le> double x"
  using double_ge [of x 0 0] by (cases "x = 0") (simp_all add: double_def)

lemma powi_integer: "0 \<le> k \<Longrightarrow> (2::rat) powi k = of_int (2 ^ nat k)"
  by (simp add: power_int_def)


lemma grid_integer:
  assumes "int j \<le> k"
  shows "\<exists>m. (of_int n + of_int i / 2 ^ j) * (2::rat) powi k = of_int m"
proof -
  have k: "0 \<le> k" and kj: "0 \<le> k - int j"
    using assms by simp_all
  have "(2::rat) powi k = 2 powi (k - int j) * 2 ^ j"
    by (simp add: power_int_diff)
  then have "(of_int n + of_int i / 2 ^ j) * (2::rat) powi k
      = of_int n * 2 powi k + of_int i * 2 powi (k - int j)"
    by (simp add: algebra_simps)
  also have "\<dots> = of_int (n * 2 ^ nat k + i * 2 ^ nat (k - int j))"
    by (simp add: powi_integer [OF k] powi_integer [OF kj])
  finally show ?thesis by blast
qed

lemma quotient_gap_above:
  fixes a b n :: int
  assumes "0 < b" and "b \<le> 2 ^ j" and "(of_int a / of_int b :: rat) < of_int n"
  shows "(of_int a / of_int b :: rat) \<le> of_int (n - 1) + of_int (2 ^ j - 1) / 2 ^ j"
proof -
  have "(of_int a :: rat) < of_int n * of_int b"
    using assms(1,3) by (simp add: pos_divide_less_eq)
  then have "(of_int a :: rat) < of_int (n * b)" by simp
  then have "a < n * b" by (simp only: of_int_less_iff)
  then have "a + 1 \<le> n * b" by simp
  then have "(of_int (a + 1) :: rat) \<le> of_int (n * b)" by (simp only: of_int_le_iff)
  then have "(of_int a :: rat) + 1 \<le> of_int n * of_int b" by simp
  then have "(of_int a / of_int b :: rat) + 1 / of_int b \<le> of_int n"
    using assms(1) by (simp add: field_simps)
  moreover have "(1::rat) / 2 ^ j \<le> 1 / of_int b"
  proof -
    have "(of_int b :: rat) \<le> of_int (2 ^ j)"
      using assms(2) by (simp only: of_int_le_iff)
    then show ?thesis using assms(1) by (simp add: frac_le)
  qed
  ultimately have "(of_int a / of_int b :: rat) \<le> of_int n - 1 / 2 ^ j" by linarith
  also have "\<dots> = of_int (n - 1) + of_int (2 ^ j - 1) / 2 ^ j"
    by (simp add: field_simps)
  finally show ?thesis .
qed

lemma quotient_gap_below:
  fixes a b n :: int
  assumes "0 < b" and "b \<le> 2 ^ j" and "of_int n < (of_int a / of_int b :: rat)"
  shows "of_int n + of_int 1 / 2 ^ j \<le> (of_int a / of_int b :: rat)"
proof -
  have "of_int n * of_int b < (of_int a :: rat)"
    using assms(1,3) by (simp add: pos_less_divide_eq)
  then have "(of_int (n * b) :: rat) < of_int a" by simp
  then have "n * b < a" by (simp only: of_int_less_iff)
  then have "n * b + 1 \<le> a" by simp
  then have "(of_int (n * b + 1) :: rat) \<le> of_int a" by (simp only: of_int_le_iff)
  then have "of_int n * of_int b + 1 \<le> (of_int a :: rat)" by simp
  then have "(of_int n * of_int b + 1) / of_int b \<le> (of_int a / of_int b :: rat)"
    using assms(1) by (simp add: divide_right_mono)
  moreover have "(of_int n * of_int b + 1) / of_int b = (of_int n + 1 / of_int b :: rat)"
    using assms(1) by (simp add: add_divide_distrib)
  ultimately have "of_int n + 1 / of_int b \<le> (of_int a / of_int b :: rat)"
    by simp
  moreover have "(1::rat) / 2 ^ j \<le> 1 / of_int b"
  proof -
    have "(of_int b :: rat) \<le> of_int (2 ^ j)"
      using assms(2) by (simp only: of_int_le_iff)
    then show ?thesis using assms(1) by (simp add: frac_le)
  qed
  ultimately show ?thesis by simp
qed

text \<open>A quotient of integers, small enough, keeps its floor and its ceiling when it is rounded.\<close>

lemma js_div_floor_ceiling:
  fixes a b :: int
  assumes a: "0 \<le> a" and b: "0 < b" and bj: "b \<le> 2 ^ j" and small: "a < 2 ^ (52 - j)" and j: "j \<le> 52"
  shows "\<lfloor>js_div (of_int a) (of_int b)\<rfloor> = \<lfloor>(of_int a / of_int b :: rat)\<rfloor>"
    and "\<lceil>js_div (of_int a) (of_int b)\<rceil> = \<lceil>(of_int a / of_int b :: rat)\<rceil>"
proof -
  let ?x = "(of_int a / of_int b :: rat)"
  have both: "\<lfloor>double ?x\<rfloor> = \<lfloor>?x\<rfloor> \<and> \<lceil>double ?x\<rceil> = \<lceil>?x\<rceil>"
  proof (cases "a = 0")
    case True
    then show ?thesis by (simp add: double_def)
  next
    case False
    with a b have x: "0 < ?x" by simp
    have "?x \<le> of_int a"
      using a b by (simp add: pos_divide_le_eq mult_le_cancel_left1)
    also have "(of_int a :: rat) < of_int (2 ^ (52 - j))"
      using small by (simp only: of_int_less_iff)
    also have "(of_int (2 ^ (52 - j)) :: rat) = 2 powi (52 - int j)"
      using j by (simp add: power_int_def nat_diff_distrib')
    finally have "ilog2 ?x < 52 - int j"
      by (rule ilog2_bound [OF x])
    then have k: "int j \<le> 52 - ilog2 ?x" by simp
    note grid = grid_integer [OF k]
    (* the floor *)
    let ?n = "\<lfloor>?x\<rfloor>"
    obtain m1 where "(of_int ?n + of_int 0 / 2 ^ j) * (2::rat) powi (52 - ilog2 ?x) = of_int m1"
      using grid [of ?n 0] by blast
    then have "of_int ?n * (2::rat) powi (52 - ilog2 ?x) = of_int m1" by simp
    then have lo: "of_int ?n \<le> double ?x"
      by (rule double_ge [OF x of_int_floor_le])
    have "?x < of_int (?n + 1)" by linarith
    then have "?x \<le> of_int (?n + 1 - 1) + of_int (2 ^ j - 1) / 2 ^ j"
      by (rule quotient_gap_above [OF b bj])
    then have le: "?x \<le> of_int ?n + of_int (2 ^ j - 1) / 2 ^ j" by simp
    obtain m2 where "(of_int ?n + of_int (2 ^ j - 1) / 2 ^ j) * (2::rat) powi (52 - ilog2 ?x) = of_int m2"
      using grid [of ?n "2 ^ j - 1"] by blast
    then have "double ?x \<le> of_int ?n + of_int (2 ^ j - 1) / 2 ^ j"
      by (rule double_le [OF x le])
    also have "\<dots> < of_int ?n + 1"
      by (simp add: field_simps)
    finally have hi: "double ?x < of_int ?n + 1" .
    have fl: "\<lfloor>double ?x\<rfloor> = ?n"
      using lo hi by (simp add: floor_unique)
    (* the ceiling *)
    let ?c = "\<lceil>?x\<rceil>"
    obtain m3 where "(of_int ?c + of_int 0 / 2 ^ j) * (2::rat) powi (52 - ilog2 ?x) = of_int m3"
      using grid [of ?c 0] by blast
    then have c3: "of_int ?c * (2::rat) powi (52 - ilog2 ?x) = of_int m3" by simp
    have up: "double ?x \<le> of_int ?c"
      by (rule double_le [OF x le_of_int_ceiling c3])
    have "of_int (?c - 1) < ?x" by linarith
    then have ge: "of_int (?c - 1) + of_int 1 / 2 ^ j \<le> ?x"
      by (rule quotient_gap_below [OF b bj])
    obtain m4 where "(of_int (?c - 1) + of_int 1 / 2 ^ j) * (2::rat) powi (52 - ilog2 ?x) = of_int m4"
      using grid [of "?c - 1" 1] by blast
    then have "of_int (?c - 1) + of_int 1 / 2 ^ j \<le> double ?x"
      by (rule double_ge [OF x ge])
    moreover have "(of_int ?c :: rat) - 1 < of_int (?c - 1) + of_int 1 / 2 ^ j"
      by simp
    ultimately have down: "of_int ?c - 1 < double ?x"
      by (rule less_le_trans [rotated])
    have "\<lceil>double ?x\<rceil> = ?c"
      using up down by (simp add: ceiling_unique)
    with fl show ?thesis by simp
  qed
  show "\<lfloor>js_div (of_int a) (of_int b)\<rfloor> = \<lfloor>?x\<rfloor>"
    and "\<lceil>js_div (of_int a) (of_int b)\<rceil> = \<lceil>?x\<rceil>"
    using both by (simp_all add: js_div_def)
qed

lemma score_range: "0 \<le> p \<Longrightarrow> p \<le> t \<Longrightarrow> 0 \<le> score p t \<and> score p t \<le> 100"
proof (cases "0 < t")
  case False
  then show ?thesis by (simp add: score_def)
next
  case True
  assume p: "0 \<le> p" "p \<le> t"
  let ?q = "js_div (of_int p) (of_int t)"
  have q0: "0 \<le> ?q"
    unfolding js_div_def using p True by (intro double_nonneg) simp
  have q1: "?q \<le> 1"
  proof (cases "p = 0")
    case True
    then show ?thesis by (simp add: js_div_def double_def)
  next
    case False
    with p True have x: "0 < (of_int p / of_int t :: rat)" by simp
    have le: "(of_int p / of_int t :: rat) \<le> 1"
      using p True by simp
    then have "(of_int p / of_int t :: rat) < 2 powi 1" by simp
    then have "ilog2 (of_int p / of_int t) < 1" by (rule ilog2_bound [OF x])
    then have "0 \<le> 52 - ilog2 (of_int p / of_int t :: rat)" by simp
    then have "(1::rat) * 2 powi (52 - ilog2 (of_int p / of_int t)) =
        of_int (2 ^ nat (52 - ilog2 (of_int p / of_int t)))"
      by (simp add: powi_integer)
    then show ?thesis
      unfolding js_div_def by (rule double_le [OF x le])
  qed
  let ?y = "js_mul ?q 100"
  have y0: "0 \<le> ?y"
    unfolding js_mul_def using q0 by (intro double_nonneg) simp
  have y1: "?y \<le> 100"
  proof (cases "?q = 0")
    case True
    then show ?thesis by (simp add: js_mul_def double_def)
  next
    case False
    with q0 have x: "0 < ?q * 100" by simp
    have le: "?q * 100 \<le> 100" using q1 by simp
    then have "?q * 100 < 2 powi 7" by simp
    then have "ilog2 (?q * 100) < 7" by (rule ilog2_bound [OF x])
    then have "0 \<le> 52 - ilog2 (?q * 100)" by simp
    then have "(100::rat) * 2 powi (52 - ilog2 (?q * 100)) =
        of_int (100 * 2 ^ nat (52 - ilog2 (?q * 100)))"
      by (simp add: powi_integer)
    then show ?thesis
      unfolding js_mul_def by (rule double_le [OF x le])
  qed
  have "0 \<le> Math_round ?y \<and> Math_round ?y \<le> 100"
    unfolding Math_round_def using y0 y1 by (auto simp: le_floor_iff floor_le_iff)
  then show ?thesis using True by (simp add: score_def)
qed

text \<open>
  The rounding is to a nearest double: \<open>ilog2\<close> does find the binade, and the rounded
  value is within half a unit in the last place.
\<close>

lemma ilog2_upper: "0 < x \<Longrightarrow> x < 2 powi (ilog2 x + 1)"
proof -
  assume x: "0 < x"
  obtain a b where q: "quotient_of x = (a, b)"
    by (cases "quotient_of x")
  then have b: "0 < b" and xab: "x = of_int a / of_int b"
    using quotient_of_denom_pos [OF q] quotient_of_div [OF q] by simp_all
  with x have a: "0 < a"
    by (simp add: zero_less_divide_iff)
  let ?d = "bitlen a - bitlen b"
  show ?thesis
  proof (cases "x < 2 powi ?d")
    case True
    then show ?thesis by (simp add: ilog2_def q)
  next
    case False
    have "of_int a / of_int b < (2::rat) powi (bitlen a) / of_int b"
      using bitlen_less_two_powi [OF a] b by (simp add: divide_strict_right_mono)
    also have "\<dots> \<le> 2 powi (bitlen a) / 2 powi (bitlen b - 1)"
      using two_powi_bitlen_le [OF b] b by (simp add: frac_le)
    also have "\<dots> = 2 powi (?d + 1)"
      by (simp add: power_int_diff power_int_add)
    finally have "x < 2 powi (?d + 1)"
      by (simp only: xab)
    moreover have "ilog2 x = ?d"
      using False by (simp add: ilog2_def q)
    ultimately show ?thesis by simp
  qed
qed

lemma roundHalfEven_error: "\<bar>of_int (roundHalfEven z) - z\<bar> \<le> 1 / 2"
proof -
  define n where "n = \<lfloor>z\<rfloor>"
  define r where "r = z - of_int n"
  have r: "0 \<le> r" "r < 1"
    unfolding r_def n_def by linarith+
  have z: "z = of_int n + r"
    by (simp add: r_def)
  have "roundHalfEven z =
      (if r < 1 / 2 then n else if 1 / 2 < r then n + 1 else if even n then n else n + 1)"
    by (simp add: roundHalfEven_def Let_def n_def r_def)
  then show ?thesis
    using r unfolding z by (auto simp: abs_if)
qed

lemma double_error:
  assumes "0 < x"
  shows "\<bar>double x - x\<bar> \<le> 2 powi (ilog2 x - 53)"
proof -
  let ?p = "(2::rat) powi (52 - ilog2 x)"
  let ?r = "(of_int (roundHalfEven (x * ?p)) :: rat)"
  have p: "0 < ?p" by simp
  have "\<bar>?r / ?p - x\<bar> = \<bar>?r - x * ?p\<bar> / ?p"
    using p by (simp add: field_simps abs_if)
  also have "\<dots> \<le> (1 / 2) / ?p"
    by (intro divide_right_mono roundHalfEven_error) simp
  also have "\<dots> = 2 powi (ilog2 x - 53)"
  proof -
    have "(2::rat) powi ((ilog2 x - 53) + (1 + (52 - ilog2 x)))
        = 2 powi (ilog2 x - 53) * (2 powi 1 * 2 powi (52 - ilog2 x))"
      by (simp only: power_int_add [of "2::rat", OF disjI1] numeral_neq_zero not_False_eq_True)
    moreover have "(ilog2 x - 53) + (1 + (52 - ilog2 x)) = 0"
      by simp
    ultimately have "(2::rat) powi (ilog2 x - 53) * (2 * ?p) = 1"
      by simp
    then show ?thesis
      using p by (simp add: field_simps)
  qed
  finally show ?thesis
    by (simp only: double_pos_eq [OF assms])
qed

lemma double_error_below:
  assumes "0 \<le> x" and "x < 2 powi n"
  shows "\<bar>double x - x\<bar> \<le> 2 powi (n - 54)"
proof (cases "x = 0")
  case True
  then show ?thesis by (simp add: double_def)
next
  case False
  with assms have x: "0 < x" by simp
  have "ilog2 x < n"
    using x assms(2) by (rule ilog2_bound)
  then have "(2::rat) powi (ilog2 x - 53) \<le> 2 powi (n - 54)"
    by (intro power_int_increasing) simp_all
  with double_error [OF x] show ?thesis by simp
qed

text \<open>
  The percentage.  The quotient of the two totals and its product by 100 are each within
  half a unit in the last place of the exact value, so the computed percentage is within
  \<open>2\<^sup>-\<^sup>4\<^sup>5\<close> of the exact one.  A percentage that does not end in \<open>.5\<close> is at least
  \<open>1 / (2 t)\<close> away from the next one that does, so for totals below \<open>2\<^sup>4\<^sup>4\<close> seconds the
  score is the exact percentage rounded half up; a percentage that ends in \<open>.5\<close> gives
  that or one less.
\<close>

lemma triangle100:
  fixes x q y :: rat
  shows "\<bar>y - 100 * x\<bar> \<le> \<bar>y - q * 100\<bar> + 100 * \<bar>q - x\<bar>"
proof -
  have "y - 100 * x = (y - q * 100) + 100 * (q - x)"
    by (simp add: algebra_simps)
  then have "\<bar>y - 100 * x\<bar> \<le> \<bar>y - q * 100\<bar> + \<bar>100 * (q - x)\<bar>"
    by (simp only: abs_triangle_ineq)
  moreover have "\<bar>100 * (q - x)\<bar> = 100 * \<bar>q - x\<bar>"
    by (simp only: abs_mult abs_numeral)
  ultimately show ?thesis
    by (simp only:)
qed

lemma percentage_error:
  fixes p t :: int
  assumes "0 \<le> p" and "p \<le> t" and "0 < t"
  shows "\<bar>js_mul (js_div (of_int p) (of_int t)) 100 - 100 * (of_int p / of_int t)\<bar> < 1 / 2 ^ 45"
proof -
  let ?x = "(of_int p / of_int t :: rat)"
  let ?q = "double ?x"
  let ?y = "double (?q * 100)"
  have x0: "0 \<le> ?x" and x1: "?x \<le> 1"
    using assms by simp_all
  have "?x < 2 powi 1" using x1 by simp
  then have "\<bar>?q - ?x\<bar> \<le> 2 powi (1 - 54)"
    by (rule double_error_below [OF x0])
  moreover have "(2::rat) powi (1 - 54) = 1 / 2 ^ 53"
    by (simp add: power_int_def power_divide)
  ultimately have eq: "\<bar>?q - ?x\<bar> \<le> 1 / 2 ^ 53" by simp
  have q0: "0 \<le> ?q"
    using x0 by (rule double_nonneg)
  have "?q \<le> ?x + 1 / 2 ^ 53"
    using eq by linarith
  then have "?q * 100 < 2 powi 7"
    using x1 by simp
  moreover have z0: "0 \<le> ?q * 100"
    using q0 by simp
  ultimately have "\<bar>?y - ?q * 100\<bar> \<le> 2 powi (7 - 54)"
    by (intro double_error_below)
  moreover have "(2::rat) powi (7 - 54) = 1 / 2 ^ 47"
    by (simp add: power_int_def power_divide)
  ultimately have ey: "\<bar>?y - ?q * 100\<bar> \<le> 1 / 2 ^ 47" by simp
  have "\<bar>?y - 100 * ?x\<bar> \<le> \<bar>?y - ?q * 100\<bar> + 100 * \<bar>?q - ?x\<bar>"
    by (rule triangle100)
  also have "\<dots> \<le> 1 / 2 ^ 47 + 100 * (1 / 2 ^ 53)"
    by (intro add_mono mult_left_mono ey eq) simp
  also have "\<dots> < 1 / 2 ^ 45"
    by simp
  finally show ?thesis
    by (simp add: js_mul_def js_div_def)
qed

lemma half_up_integer:
  fixes p t :: int
  assumes "0 < t"
  shows "Math_round (100 * (of_int p / of_int t)) = (200 * p + t) div (2 * t)"
proof -
  have "100 * (of_int p / of_int t) + 1 / 2 = (of_int (200 * p + t) / of_int (2 * t) :: rat)"
    using assms by (simp add: field_simps)
  then show ?thesis
    unfolding Math_round_def by (simp only: floor_divide_of_int_eq)
qed

lemma score_near_percentage:
  fixes p t :: int
  assumes p0: "0 \<le> p" and pt: "p \<le> t" and t0: "0 < t" and small: "t < 2 ^ 44"
  shows "(\<not> 2 * t dvd 200 * p + t \<longrightarrow> score p t = Math_round (100 * (of_int p / of_int t))) \<and>
         (score p t = Math_round (100 * (of_int p / of_int t)) \<or>
          score p t = Math_round (100 * (of_int p / of_int t)) - 1)"
proof -
  let ?x = "(of_int p / of_int t :: rat)"
  let ?y = "js_mul (js_div (of_int p) (of_int t)) 100"
  define N where "N = 200 * p + t"
  define D where "D = 2 * t"
  define m where "m = N div D"
  define r where "r = N mod D"
  define delta where "delta = ?y - 100 * ?x"
  have D0: "0 < D" and D45: "D < 2 ^ 45"
    using t0 small by (simp_all add: D_def)
  have r: "0 \<le> r" "r < D"
    using D0 by (simp_all add: r_def)
  have N: "N = m * D + r"
    by (simp add: m_def r_def)
  have w: "100 * ?x + 1 / 2 = of_int m + of_int r / of_int D"
  proof -
    have "100 * ?x + 1 / 2 = (of_int N / of_int D :: rat)"
      using t0 by (simp add: N_def D_def field_simps)
    also have "\<dots> = of_int m + of_int r / of_int D"
      using D0 by (simp add: N add_divide_distrib)
    finally show ?thesis .
  qed
  have m: "Math_round (100 * ?x) = m"
    using half_up_integer [OF t0, of p] by (simp add: m_def N_def D_def)
  have d: "\<bar>delta\<bar> < 1 / 2 ^ 45"
    unfolding delta_def by (rule percentage_error [OF p0 pt t0])
  have "(of_int D :: rat) < of_int (2 ^ 45)"
    using D45 by (simp only: of_int_less_iff)
  then have invD: "(1::rat) / 2 ^ 45 < 1 / of_int D"
    using D0 by (simp add: frac_less2)
  have "?y + 1 / 2 = (100 * ?x + 1 / 2) + delta"
    by (simp add: delta_def)
  then have y: "?y + 1 / 2 = of_int m + of_int r / of_int D + delta"
    by (simp only: w)
  have sc: "score p t = \<lfloor>?y + 1 / 2\<rfloor>"
    using t0 by (simp add: score_def Math_round_def)
  have exact: "score p t = m" if "r \<noteq> 0"
  proof -
    from that r have "1 \<le> r" and "r \<le> D - 1" by simp_all
    then have "(of_int 1 :: rat) \<le> of_int r" and "(of_int r :: rat) \<le> of_int (D - 1)"
      by (simp_all only: of_int_le_iff)
    then have lo: "1 / of_int D \<le> (of_int r / of_int D :: rat)"
      and hi: "(of_int r / of_int D :: rat) \<le> 1 - 1 / of_int D"
      using D0 by (simp_all add: field_simps)
    have "of_int m < ?y + 1 / 2" and "?y + 1 / 2 < of_int m + 1"
      unfolding y using lo hi d invD by linarith+
    then have "\<lfloor>?y + 1 / 2\<rfloor> = m"
      by (simp add: floor_unique)
    with sc show ?thesis by simp
  qed
  have near: "score p t = m \<or> score p t = m - 1"
  proof (cases "r = 0")
    case False
    then show ?thesis using exact by simp
  next
    case True
    have d1: "\<bar>delta\<bar> < 1"
      using d by (rule less_le_trans) (simp add: field_simps)
    have yy: "?y + 1 / 2 = of_int m + delta"
      using y True by simp
    show ?thesis
    proof (cases "0 \<le> delta")
      case True
      then have "\<lfloor>?y + 1 / 2\<rfloor> = m"
        unfolding yy using d1 by (intro floor_unique) simp_all
      with sc show ?thesis by simp
    next
      case False
      then have "\<lfloor>?y + 1 / 2\<rfloor> = m - 1"
        unfolding yy using d1 by (intro floor_unique) simp_all
      with sc show ?thesis by simp
    qed
  qed
  have "r \<noteq> 0" if "\<not> 2 * t dvd 200 * p + t"
    using that by (simp add: r_def N_def D_def dvd_eq_mod_eq_0)
  with exact near show ?thesis
    unfolding m by blast
qed

section \<open>Classification\<close>

lemma getWebsiteCategory_productive:
  "\<exists>site\<in>set (productive c). sublist site h \<Longrightarrow> getWebsiteCategory (Some c) h = ''productive''"
  by (simp add: getWebsiteCategory_def storedCategories_def list_ex_includes)

lemma getWebsiteCategory_unproductive:
  "\<forall>site\<in>set (productive c). \<not> sublist site h \<Longrightarrow> \<exists>site\<in>set (unproductive c). sublist site h \<Longrightarrow>
   getWebsiteCategory (Some c) h = ''unproductive''"
  by (simp add: getWebsiteCategory_def storedCategories_def list_ex_includes)

lemma getWebsiteCategory_neutral:
  "\<forall>site\<in>set (productive c) \<union> set (unproductive c). \<not> sublist site h \<Longrightarrow>
   getWebsiteCategory (Some c) h = ''neutral''"
  by (simp add: getWebsiteCategory_def storedCategories_def list_ex_includes)

text \<open>
  \<^bold>\<open>C4\<close> (as amended).  A domain that contains an entry of the productive list is
  productive, whatever the unproductive list holds; otherwise a domain that contains an
  entry of the unproductive list is unproductive.  So a host name on both lists is
  productive, and so is one on the productive list only.  A host name on the
  unproductive list is unproductive provided it contains no entry of the productive
  list: being absent from that list is not enough, because the test is containment.
\<close>

theorem getWebsiteCategory_membership:
  "((\<exists>site\<in>set (productive c). sublist site h) \<longrightarrow>
      getWebsiteCategory (Some c) h = ''productive'') \<and>
   ((\<forall>site\<in>set (productive c). \<not> sublist site h) \<and>
    (\<exists>site\<in>set (unproductive c). sublist site h) \<longrightarrow>
      getWebsiteCategory (Some c) h = ''unproductive'') \<and>
   (h \<in> set (productive c) \<and> h \<in> set (unproductive c) \<longrightarrow>
      getWebsiteCategory (Some c) h = ''productive'') \<and>
   (h \<in> set (productive c) \<and> h \<notin> set (unproductive c) \<longrightarrow>
      getWebsiteCategory (Some c) h = ''productive'') \<and>
   (h \<in> set (unproductive c) \<and> (\<forall>site\<in>set (productive c). \<not> sublist site h) \<longrightarrow>
      getWebsiteCategory (Some c) h = ''unproductive'')"
proof -
  have self: "h \<in> set xs \<Longrightarrow> \<exists>site\<in>set xs. sublist site h" for xs
    by auto
  show ?thesis
    using getWebsiteCategory_productive [of c h] getWebsiteCategory_unproductive [of c h]
      self [of "productive c"] self [of "unproductive c"]
    by blast
qed

text \<open>
  The theorem at work: \<^verbatim>\<open>gist.github.com\<close> contains a productive entry;
  \<^verbatim>\<open>m.youtube.com\<close> contains an unproductive entry and no productive one;
  \<^verbatim>\<open>reddit.com\<close>, put on both lists, is productive.
\<close>

theorem getWebsiteCategory_membership_witness:
  "getWebsiteCategory (Some defaultCategories) ''gist.github.com'' = ''productive'' \<and>
   getWebsiteCategory (Some defaultCategories) ''m.youtube.com'' = ''unproductive'' \<and>
   getWebsiteCategory
     (Some \<lparr>productive = [''github.com'', ''reddit.com''], unproductive = [''reddit.com'']\<rparr>)
     ''reddit.com'' = ''productive''"
proof -
  have a: "\<exists>site\<in>set (productive defaultCategories). sublist site ''gist.github.com''"
    unfolding js_includes_sublist [symmetric] by code_simp
  have b: "(\<forall>site\<in>set (productive defaultCategories). \<not> sublist site ''m.youtube.com'') \<and>
           (\<exists>site\<in>set (unproductive defaultCategories). sublist site ''m.youtube.com'')"
    unfolding js_includes_sublist [symmetric] by code_simp
  have c: "''reddit.com'' \<in> set (productive \<lparr>productive = [''github.com'', ''reddit.com''],
              unproductive = [''reddit.com'']\<rparr>) \<and>
           ''reddit.com'' \<in> set (unproductive \<lparr>productive = [''github.com'', ''reddit.com''],
              unproductive = [''reddit.com'']\<rparr>)"
    by simp
  have 1: "getWebsiteCategory (Some defaultCategories) ''gist.github.com'' = ''productive''"
    by (rule getWebsiteCategory_membership [THEN conjunct1, THEN mp, OF a])
  have 2: "getWebsiteCategory (Some defaultCategories) ''m.youtube.com'' = ''unproductive''"
    by (rule getWebsiteCategory_membership [THEN conjunct2, THEN conjunct1, THEN mp, OF b])
  have 3: "getWebsiteCategory
     (Some \<lparr>productive = [''github.com'', ''reddit.com''], unproductive = [''reddit.com'']\<rparr>)
     ''reddit.com'' = ''productive''"
    by (rule getWebsiteCategory_membership
          [THEN conjunct2, THEN conjunct2, THEN conjunct1, THEN mp, OF c])
  from 1 2 3 show ?thesis by (intro conjI)
qed

text \<open>
  Where C4 as stated fails: with \<^verbatim>\<open>x.com\<close> on the productive list,
  \<^verbatim>\<open>netflix.com\<close> is on the unproductive list, absent from the productive list, and
  classified productive, since \<^verbatim>\<open>netflix.com\<close> contains \<^verbatim>\<open>x.com\<close>.
\<close>

theorem getWebsiteCategory_not_symmetric:
  "''netflix.com'' \<in> set (unproductive \<lparr>productive = [''x.com''], unproductive = [''netflix.com'']\<rparr>) \<and>
   ''netflix.com'' \<notin> set (productive \<lparr>productive = [''x.com''], unproductive = [''netflix.com'']\<rparr>) \<and>
   getWebsiteCategory (Some \<lparr>productive = [''x.com''], unproductive = [''netflix.com'']\<rparr>)
     ''netflix.com'' = ''productive''"
  by (simp add: getWebsiteCategory_def storedCategories_def)

lemma categorizeWebsite_fallback:
  "\<not> truthy (getProperty websiteCategories h) \<Longrightarrow>
   categorizeWebsite websiteCategories h =
     JString
       (if \<exists>keyword\<in>set productiveKeywords. sublist keyword (toLowerCase h) then ''productive''
        else if \<exists>keyword\<in>set unproductiveKeywords. sublist keyword (toLowerCase h)
          then ''unproductive''
        else ''neutral'')"
  by (simp add: categorizeWebsite_def Let_def list_ex_includes)

lemma getProperty_absent:
  "websiteCategories h = None \<Longrightarrow> h \<notin> set objectPrototypeMembers \<Longrightarrow>
   \<not> truthy (getProperty websiteCategories h)"
  by (simp add: getProperty_def)

text \<open>
  \<^bold>\<open>C3\<close> (as amended).  The keyword fallback is the dashboard's: for a host name that
  its category object does not hold (and that is not the name of an inherited member),
  \<^verbatim>\<open>categorizeWebsite\<close> lower-cases the host name and answers productive when it
  contains one of docs, learn, education, tutorial, course, study, work, else
  unproductive when it contains one of social, entertainment, game, video, stream, else
  neutral.  The tracker's \<^verbatim>\<open>getWebsiteCategory\<close> has no fallback: a domain that
  contains no entry of either list is neutral, whatever keywords it contains.
\<close>

theorem keyword_fallback:
  "(websiteCategories h = None \<and> h \<notin> set objectPrototypeMembers \<longrightarrow>
      categorizeWebsite websiteCategories h =
        JString
          (if \<exists>keyword\<in>set [''docs'', ''learn'', ''education'', ''tutorial'', ''course'',
                                ''study'', ''work''].
                sublist keyword (toLowerCase h)
             then ''productive''
           else if \<exists>keyword\<in>set [''social'', ''entertainment'', ''game'', ''video'', ''stream''].
                sublist keyword (toLowerCase h)
             then ''unproductive''
           else ''neutral'')) \<and>
   ((\<forall>site\<in>set (productive c) \<union> set (unproductive c). \<not> sublist site h) \<longrightarrow>
      getWebsiteCategory (Some c) h = ''neutral'')"
proof (intro conjI impI)
  assume "websiteCategories h = None \<and> h \<notin> set objectPrototypeMembers"
  then have "\<not> truthy (getProperty websiteCategories h)"
    by (simp add: getProperty_absent)
  then show "categorizeWebsite websiteCategories h =
        JString
          (if \<exists>keyword\<in>set [''docs'', ''learn'', ''education'', ''tutorial'', ''course'',
                                ''study'', ''work''].
                sublist keyword (toLowerCase h)
             then ''productive''
           else if \<exists>keyword\<in>set [''social'', ''entertainment'', ''game'', ''video'', ''stream''].
                sublist keyword (toLowerCase h)
             then ''unproductive''
           else ''neutral'')"
    by (rule categorizeWebsite_fallback [unfolded productiveKeywords_def unproductiveKeywords_def])
next
  assume "\<forall>site\<in>set (productive c) \<union> set (unproductive c). \<not> sublist site h"
  then show "getWebsiteCategory (Some c) h = ''neutral''"
    by (rule getWebsiteCategory_neutral)
qed

theorem keyword_fallback_witness:
  "categorizeWebsite getDefaultCategories ''Learn.Example.org'' = JString ''productive'' \<and>
   getWebsiteCategory (Some defaultCategories) ''Learn.Example.org'' = ''neutral''"
proof -
  have a: "getDefaultCategories ''Learn.Example.org'' = None \<and>
           ''Learn.Example.org'' \<notin> set objectPrototypeMembers"
    by code_simp
  have b: "\<forall>site\<in>set (productive defaultCategories) \<union> set (unproductive defaultCategories).
             \<not> sublist site ''Learn.Example.org''"
    unfolding js_includes_sublist [symmetric] by code_simp
  have d: "\<exists>keyword\<in>set [''docs'', ''learn'', ''education'', ''tutorial'', ''course'',
                            ''study'', ''work''].
             sublist keyword (toLowerCase ''Learn.Example.org'')"
    unfolding js_includes_sublist [symmetric] by code_simp
  from keyword_fallback [of getDefaultCategories "''Learn.Example.org''" defaultCategories] a b
  have "categorizeWebsite getDefaultCategories ''Learn.Example.org'' =
        JString
          (if \<exists>keyword\<in>set [''docs'', ''learn'', ''education'', ''tutorial'', ''course'',
                                ''study'', ''work''].
                sublist keyword (toLowerCase ''Learn.Example.org'')
             then ''productive''
           else if \<exists>keyword\<in>set [''social'', ''entertainment'', ''game'', ''video'', ''stream''].
                sublist keyword (toLowerCase ''Learn.Example.org'')
             then ''unproductive''
           else ''neutral'')"
    and e: "getWebsiteCategory (Some defaultCategories) ''Learn.Example.org'' = ''neutral''"
    by blast+
  then have "categorizeWebsite getDefaultCategories ''Learn.Example.org'' = JString ''productive''"
    by (simp only: d if_True)
  with e show ?thesis by (simp only: simp_thms)
qed

text \<open>
  Where C3 as stated fails: \<^verbatim>\<open>learn.example.org\<close> is on neither list of the tracker
  and contains the keyword \<^verbatim>\<open>learn\<close>, and the tracker's classifier answers neutral.
\<close>

theorem tracker_has_no_keyword_fallback:
  "''learn.example.org'' \<notin> set (productive defaultCategories) \<and>
   ''learn.example.org'' \<notin> set (unproductive defaultCategories) \<and>
   js_includes (toLowerCase ''learn.example.org'') ''learn'' \<and>
   getWebsiteCategory (Some defaultCategories) ''learn.example.org'' = ''neutral''"
  by code_simp

section \<open>Editing the lists\<close>

text \<open>
  \<^bold>\<open>C9\<close>.  When the two lists share no host name, they share none after
  \<^verbatim>\<open>addWebsiteToCategory\<close> and after \<^verbatim>\<open>removeWebsiteFromCategory\<close>; and adding a
  host name to one list puts it there and removes it from the other.
\<close>

theorem category_edits_keep_lists_disjoint:
  assumes "disjointLists stored"
  shows "disjointLists (addWebsiteToCategory list site stored) \<and>
         disjointLists (removeWebsiteFromCategory list site stored) \<and>
         (list = ''productive'' \<longrightarrow>
            site \<in> set (productive (storedCategories
                              (addWebsiteToCategory list site stored))) \<and>
            site \<notin> set (unproductive (storedCategories
                              (addWebsiteToCategory list site stored)))) \<and>
         (list = ''unproductive'' \<longrightarrow>
            site \<in> set (unproductive (storedCategories
                              (addWebsiteToCategory list site stored))) \<and>
            site \<notin> set (productive (storedCategories
                              (addWebsiteToCategory list site stored))))"
  using assms
  by (auto simp: disjointLists_def addWebsiteToCategory_def removeWebsiteFromCategory_def
      storedCategories_def Let_def split: option.splits)

theorem category_edits_keep_lists_disjoint_witness:
  "disjointLists (Some defaultCategories) \<and>
   disjointLists (addWebsiteToCategory ''productive'' ''reddit.com'' (Some defaultCategories)) \<and>
   disjointLists (removeWebsiteFromCategory ''productive'' ''reddit.com'' (Some defaultCategories)) \<and>
   ''reddit.com'' \<in> set (productive (storedCategories
       (addWebsiteToCategory ''productive'' ''reddit.com'' (Some defaultCategories)))) \<and>
   ''reddit.com'' \<notin> set (unproductive (storedCategories
       (addWebsiteToCategory ''productive'' ''reddit.com'' (Some defaultCategories)))) \<and>
   ''reddit.com'' \<in> set (unproductive defaultCategories)"
proof -
  have h: "disjointLists (Some defaultCategories)"
    by code_simp
  have u: "''reddit.com'' \<in> set (unproductive defaultCategories)"
    by code_simp
  from category_edits_keep_lists_disjoint [OF h, of "''productive''" "''reddit.com''"] h u
  show ?thesis by simp
qed

section \<open>The domain of a URL\<close>

lemma removeFirst_www: "startsWith h ''www.'' \<Longrightarrow> removeFirst ''www.'' h = drop 4 h"
proof -
  assume "startsWith h ''www.''"
  then have "removeFirst ''www.'' h = drop (length ''www.'') h"
    by (rule removeFirst_prefix)
  moreover have "length ''www.'' = 4"
    by simp
  ultimately show ?thesis by (simp only:)
qed

text \<open>
  The two implementations agree on a URL that does not parse, and on a host name that
  starts with \<^verbatim>\<open>www.\<close> or does not contain it.
\<close>

lemma getDomain_agree:
  "(case URL_hostname u of
      None \<Rightarrow> True
    | Some h \<Rightarrow> prefix ''www.'' h \<or> \<not> sublist ''www.'' h) \<Longrightarrow>
   getDomain URL_hostname u = getDomain_duplicate URL_hostname u"
  by (auto simp: getDomain_def getDomain_duplicate_def removeFirst_absent removeFirst_www
      startsWith_prefix split: option.splits)

lemma getDomain_leading_www:
  "getDomain sampleHostnames ''https://www.github.com/explore'' = ''github.com'' \<and>
   getDomain_duplicate sampleHostnames ''https://www.github.com/explore'' = ''github.com''"
  by code_simp

text \<open>
  \<^bold>\<open>C10\<close>.  The two implementations do not agree on every URL.  For
  \<^verbatim>\<open>http://static.www.example.com/logo.png\<close> the host name is
  \<^verbatim>\<open>static.www.example.com\<close>: the background script returns it as it is, its duplicate
  returns \<^verbatim>\<open>static.example.com\<close>.
\<close>

theorem getDomain_implementations_differ:
  "sampleHostnames ''http://static.www.example.com/logo.png'' = Some ''static.www.example.com'' \<and>
   getDomain sampleHostnames ''http://static.www.example.com/logo.png''
     = ''static.www.example.com'' \<and>
   getDomain_duplicate sampleHostnames ''http://static.www.example.com/logo.png''
     = ''static.example.com''"
  by code_simp

section \<open>The session tracker\<close>

text \<open>
  Whole seconds are exact: \<^verbatim>\<open>Math.floor(timeSpentMs / 1000)\<close> is the integer
  quotient, for every session shorter than \<open>2\<^sup>4\<^sup>2\<close> milliseconds (139 years).  So a
  running session is saved exactly when it has lasted 2000 milliseconds.
\<close>

lemma whole_seconds:
  assumes "0 \<le> ms" and "ms < 2 ^ 42"
  shows "Math_floor (js_div (of_int ms) 1000) = ms div 1000"
proof -
  have "\<lfloor>js_div (of_int ms) (of_int 1000)\<rfloor> = \<lfloor>(of_int ms / of_int 1000 :: rat)\<rfloor>"
    using assms by (intro js_div_floor_ceiling(1) [where j = 10]) simp_all
  also have "\<dots> = ms div 1000"
    by (rule floor_divide_of_int_eq)
  finally show ?thesis by (simp add: Math_floor_def)
qed

lemma stopTracking_emits:
  assumes "isTracking tr" and "currentTab tr = Some t" and "startTime tr = Some start"
    and "start \<noteq> 0" and "0 \<le> now - start" and "now - start < 2 ^ 42"
  shows "stopTracking URL_hostname now tr =
     (idle,
      if 2000 \<le> now - start
        then Some (SaveTimeEntry (getDomain URL_hostname (tab_url t)) ((now - start) div 1000)
                     (tab_url t) (tab_title t))
      else None)"
proof -
  have w: "Math_floor (js_div (of_int (now - start)) 1000) = (now - start) div 1000"
    using assms(5,6) by (rule whole_seconds)
  have "(1 < (now - start) div 1000) = (2000 \<le> now - start)"
    by linarith
  then show ?thesis
    unfolding stopTracking_def Let_def using assms(1-4) by (simp add: w del: of_int_diff)
qed

text \<open>
  \<^bold>\<open>C1\<close>.  A session of 1500 milliseconds lasts one whole second, and
  \<^verbatim>\<open>stopTracking\<close> closes it without a call to \<^verbatim>\<open>saveTimeEntry\<close>: the test is
  \<^verbatim>\<open>timeSpent > 1\<close> on whole seconds.  The duplicate, whose test is
  \<^verbatim>\<open>timeSpent > 1000\<close> on milliseconds, saves the same session.
\<close>

theorem one_second_session_is_dropped:
  "stopTracking sampleHostnames 2500
     \<lparr>currentTab = Some \<lparr>tab_url = ''https://github.com/explore'', tab_title = ''Explore''\<rparr>,
      startTime = Some 1000, isTracking = True\<rparr>
     = (idle, None) \<and>
   stopTracking_duplicate sampleHostnames 2500
     \<lparr>currentTab = Some \<lparr>tab_url = ''https://github.com/explore'', tab_title = ''Explore''\<rparr>,
      startTime = Some 1000, isTracking = True\<rparr>
     = (idle, Some (SaveTimeEntry ''github.com'' 1500 ''https://github.com/explore'' ''Explore''))"
  by code_simp

text \<open>
  \<^bold>\<open>C8\<close> (as amended).  When the URL of the tab does not parse, \<^verbatim>\<open>getDomain\<close>
  returns the URL itself as the domain, and \<^verbatim>\<open>handleTabChange\<close> starts a session on
  the tab unless the URL is empty or starts with \<^verbatim>\<open>chrome://\<close>; what the previous
  session emits is what \<^verbatim>\<open>stopTracking\<close> emits.  When the lookup of the tab fails,
  the handler ends where \<^verbatim>\<open>stopTracking\<close> left the tracker.  Both failures are
  branches of the handlers, which return a state for every input.
\<close>

theorem malformed_url_handling:
  "(URL_hostname (tab_url t) = None \<and> tabs tabId = Some t \<longrightarrow>
      getDomain URL_hostname (tab_url t) = tab_url t \<and>
      handleTabChange URL_hostname tabs now later tabId tr =
        (if tab_url t = [] \<or> prefix ''chrome://'' (tab_url t)
           then fst (stopTracking URL_hostname now tr)
         else \<lparr>currentTab = Some t, startTime = Some later, isTracking = True\<rparr>,
         snd (stopTracking URL_hostname now tr))) \<and>
   (tabs tabId = None \<longrightarrow>
      handleTabChange URL_hostname tabs now later tabId tr = stopTracking URL_hostname now tr)"
  by (auto simp: handleTabChange_def getDomain_def startTracking_def startsWith_prefix
      split: prod.splits)

theorem malformed_url_handling_witness:
  "sampleHostnames malformedUrl = None \<and>
   getDomain sampleHostnames malformedUrl = malformedUrl \<and>
   handleTabChange sampleHostnames sampleTabs 5000 5001 7 idle =
     (\<lparr>currentTab = Some \<lparr>tab_url = malformedUrl, tab_title = ''untitled''\<rparr>,
       startTime = Some 5001, isTracking = True\<rparr>, None) \<and>
   handleTabChange sampleHostnames sampleTabs 5000 5001 8 idle = (idle, None)"
proof -
  let ?t = "\<lparr>tab_url = malformedUrl, tab_title = ''untitled''\<rparr>"
  have a: "sampleHostnames (tab_url ?t) = None \<and> sampleTabs 7 = Some ?t"
    by code_simp
  have a': "sampleHostnames malformedUrl = None"
    by code_simp
  have b: "sampleTabs 8 = None"
    by code_simp
  have c: "\<not> (tab_url ?t = [] \<or> prefix ''chrome://'' (tab_url ?t))"
    unfolding startsWith_prefix [symmetric] by code_simp
  have d: "stopTracking sampleHostnames 5000 idle = (idle, None)"
    by code_simp
  note m = malformed_url_handling [of sampleHostnames ?t sampleTabs _ 5000 5001 idle]
  have 1: "getDomain sampleHostnames (tab_url ?t) = tab_url ?t \<and>
      handleTabChange sampleHostnames sampleTabs 5000 5001 7 idle =
        (if tab_url ?t = [] \<or> prefix ''chrome://'' (tab_url ?t)
           then fst (stopTracking sampleHostnames 5000 idle)
         else \<lparr>currentTab = Some ?t, startTime = Some 5001, isTracking = True\<rparr>,
         snd (stopTracking sampleHostnames 5000 idle))"
    by (rule m [THEN conjunct1, THEN mp, OF a])
  have 2: "handleTabChange sampleHostnames sampleTabs 5000 5001 8 idle
             = stopTracking sampleHostnames 5000 idle"
    by (rule m [THEN conjunct2, THEN mp, OF b])
  from 1 2 a' c d show ?thesis by simp
qed

text \<open>
  Where C8 as stated fails: \<^verbatim>\<open>not a url\<close> does not parse, and after
  \<^verbatim>\<open>handleTabChange\<close> the tracker is tracking it; two seconds later the session is
  saved under the domain \<^verbatim>\<open>not a url\<close>.
\<close>

theorem malformed_url_starts_session:
  "sampleHostnames malformedUrl = None \<and>
   isTracking (fst (handleTabChange sampleHostnames sampleTabs 5000 5001 7 idle)) \<and>
   snd (stopTracking sampleHostnames 7001
          (fst (handleTabChange sampleHostnames sampleTabs 5000 5001 7 idle)))
     = Some (SaveTimeEntry ''not a url'' 2 ''not a url'' ''untitled'')"
  by code_simp

section \<open>Retention of the day buckets\<close>

lemma removeFirst_append: "removeFirst pat (pat @ s) = s"
proof -
  have "startsWith (pat @ s) pat"
    by (simp add: startsWith_prefix)
  then have "removeFirst pat (pat @ s) = drop (length pat) (pat @ s)"
    by (rule removeFirst_prefix)
  then show ?thesis by simp
qed

lemma expired_test:
  "(if startsWith key ''timeData_'' then
      (case Date_parse (removeFirst ''timeData_'' key) of
         None \<Rightarrow> False
       | Some date \<Rightarrow> date < cutoff)
    else False) = expiredBucket Date_parse cutoff key"
proof (cases "startsWith key ''timeData_''")
  case True
  then obtain day where k: "key = ''timeData_'' @ day"
    by (auto simp: startsWith_prefix prefix_def)
  have "removeFirst ''timeData_'' key = day"
    unfolding k by (rule removeFirst_append)
  then show ?thesis using True k
    by (auto simp: expiredBucket_def split: option.splits)
next
  case False
  then show ?thesis
    by (auto simp: expiredBucket_def startsWith_prefix)
qed

lemma cleanupOldData_filter:
  "cleanupOldData Date_parse daysBefore now all =
     filter (\<lambda>kv. \<not> expiredBucket Date_parse (daysBefore 30 now) (fst kv)) all"
proof -
  let ?old = "expiredBucket Date_parse (daysBefore 30 now)"
  have rm: "filter (\<lambda>key. if startsWith key ''timeData_'' then
                   (case Date_parse (removeFirst ''timeData_'' key) of
                      None \<Rightarrow> False
                    | Some date \<Rightarrow> date < daysBefore 30 now)
                 else False) (map fst all) = filter ?old (map fst all)"
    by (simp only: expired_test)
  have "filter (\<lambda>(key, v). key \<notin> set (filter ?old (map fst all))) all
          = filter (\<lambda>kv. \<not> ?old (fst kv)) all"
    by (rule filter_cong) force+
  moreover have "filter ?old (map fst all) = [] \<Longrightarrow> filter (\<lambda>kv. \<not> ?old (fst kv)) all = all"
    by (auto simp: filter_empty_conv filter_id_conv)
  ultimately show ?thesis
    unfolding cleanupOldData_def Let_def rm by auto
qed

text \<open>
  \<^bold>\<open>C6\<close>.  Run at time \<open>T\<close>, \<^verbatim>\<open>cleanupOldData\<close> removes the expired day buckets
  (cutoff: thirty days before \<open>T\<close>) and nothing else: the keys that remain are the keys
  that are not expired, every entry that remains is as it was and where it was, and a
  second run changes nothing.
\<close>

theorem cleanupOldData_exact:
  "set (map fst (cleanupOldData Date_parse daysBefore T all)) =
     set (map fst all) - {key. expiredBucket Date_parse (daysBefore 30 T) key} \<and>
   cleanupOldData Date_parse daysBefore T all =
     filter (\<lambda>kv. \<not> expiredBucket Date_parse (daysBefore 30 T) (fst kv)) all \<and>
   cleanupOldData Date_parse daysBefore T (cleanupOldData Date_parse daysBefore T all) =
     cleanupOldData Date_parse daysBefore T all"
  by (auto simp: cleanupOldData_filter)

text \<open>
  On 15 March 2024 at noon the cutoff is 14 February at noon: the bucket of 1 January
  goes, and the bucket of 1 March, the key without a date and the category lists stay.
\<close>

theorem cleanupOldData_exact_witness:
  "cleanupOldData sampleDates utcDaysBefore 1710504000000 sampleStorage =
     [(''categories'', 2), (''timeData_backup'', 1), (''timeData_2024-03-01'', 3)] \<and>
   cleanupOldData sampleDates utcDaysBefore 1710504000000
     (cleanupOldData sampleDates utcDaysBefore 1710504000000 sampleStorage) =
     [(''categories'', 2), (''timeData_backup'', 1), (''timeData_2024-03-01'', 3)]"
proof -
  have 1: "cleanupOldData sampleDates utcDaysBefore 1710504000000 sampleStorage =
     [(''categories'', 2), (''timeData_backup'', 1), (''timeData_2024-03-01'', 3)]"
    by code_simp
  from cleanupOldData_exact [of sampleDates utcDaysBefore 1710504000000 sampleStorage]
  have "cleanupOldData sampleDates utcDaysBefore 1710504000000
          (cleanupOldData sampleDates utcDaysBefore 1710504000000 sampleStorage) =
        cleanupOldData sampleDates utcDaysBefore 1710504000000 sampleStorage"
    by (rule conjunct2 [THEN conjunct2])
  with 1 show ?thesis by (simp only: simp_thms)
qed

section \<open>The backend\<close>

subsection \<open>The paginated list\<close>


text \<open>
  The database accepts the filter of a query unless a date bound is an invalid date or
  it refuses the pattern for the host name.
\<close>

lemma listFilter_None_iff:
  "listFilter Date_parse regex q = None \<longleftrightarrow>
     parsedBound Date_parse (q_startDate q) = None \<or>
     parsedBound Date_parse (q_endDate q) = None \<or>
     (\<exists>pattern. q_hostname q = Some pattern \<and> pattern \<noteq> [] \<and> regex pattern = None)"
  by (auto simp: listFilter_def periodFilter_def split: option.splits if_splits)








text \<open>
  Beyond \<open>2\<^sup>5\<^sup>3\<close> the page that the response reports is the nearest double:
  page 9007199254740993 is reported as 9007199254740992.
\<close>

lemma large_page_is_rounded:
  "parseInt 9007199254740993 = 9007199254740992"
  by code_simp

subsection \<open>Bulk creation\<close>






text \<open>
  Why a valid host name is one that is not blank: a host name of one space, or of one
  no-break space, passes \<^verbatim>\<open>notEmpty\<close>, is trimmed to nothing, and fails the schema;
  the request ends in the \<^verbatim>\<open>catch\<close> block and nothing is stored.
\<close>

lemma blank_hostname_fails_after_validation:
  "postTimeEntriesBulk isSampleDate sampleDates 1710504000000
     [sampleEntry\<lparr>b_hostname := '' ''\<rparr>] scenarioLog = (ServerError, scenarioLog)"
  by code_simp

lemma no_break_space_hostname_fails_after_validation:
  "postTimeEntriesBulk isSampleDate sampleDates 1710504000000
     [sampleEntry\<lparr>b_hostname := [CHR 0xA0]\<rparr>] scenarioLog = (ServerError, scenarioLog)"
  by code_simp

subsection \<open>The summary\<close>

lemma sum_list_delta:
  "distinct cs \<Longrightarrow> (\<Sum>c\<leftarrow>cs. if k = c then (v::int) else 0) = (if k \<in> set cs then v else 0)"
  by (induction cs) auto

lemma sum_by_category:
  "distinct cs \<Longrightarrow> category ` set es \<subseteq> set cs \<Longrightarrow>
   (\<Sum>c\<leftarrow>cs. sum_list (map duration (filter (\<lambda>e. category e = c) es))) = sum_list (map duration es)"
proof (induction es)
  case Nil
  then show ?case by simp
next
  case (Cons e es)
  have "(\<Sum>c\<leftarrow>cs. sum_list (map duration (filter (\<lambda>x. category x = c) (e # es))))
      = (\<Sum>c\<leftarrow>cs. (if category e = c then duration e else 0)
            + sum_list (map duration (filter (\<lambda>x. category x = c) es)))"
    by (rule arg_cong [where f = sum_list]) (rule map_cong, simp_all)
  also have "\<dots> = (\<Sum>c\<leftarrow>cs. if category e = c then duration e else 0)
      + (\<Sum>c\<leftarrow>cs. sum_list (map duration (filter (\<lambda>x. category x = c) es)))"
    by (simp add: sum_list_addf)
  also have "\<dots> = duration e + sum_list (map duration es)"
    using Cons by (simp add: sum_list_delta)
  finally show ?case by simp
qed

lemma groups_total:
  "sum_list (map g_totalTime (groupByCategory es)) = sum_list (map duration es)"
proof -
  have "sum_list (map g_totalTime (groupByCategory es))
      = (\<Sum>c\<leftarrow>remdups (map category es). sum_list (map duration (filter (\<lambda>e. category e = c) es)))"
    by (simp add: groupByCategory_def comp_def Let_def)
  also have "\<dots> = sum_list (map duration es)"
    by (rule sum_by_category) simp_all
  finally show ?thesis .
qed

lemma fold_totals:
  "fold (\<lambda>item (grandTotal, productiveTotal).
             (grandTotal + g_totalTime item,
              if g_category item = ''productive'' then g_totalTime item else productiveTotal))
        gs (t, p)
   = (t + sum_list (map g_totalTime gs),
      case filter (\<lambda>g. g_category g = ''productive'') gs of
        [] \<Rightarrow> p
      | g # rest \<Rightarrow> g_totalTime (last (g # rest)))"
proof (induction gs arbitrary: t p)
  case Nil
  then show ?case by simp
next
  case (Cons g gs)
  show ?case
    by (simp add: Cons.IH split: list.splits)
qed

lemma filter_eq_distinct:
  "distinct xs \<Longrightarrow> filter (\<lambda>k. k = c) xs = (if c \<in> set xs then [c] else [])"
  by (induction xs) auto

lemma productive_group:
  "filter (\<lambda>g. g_category g = c) (groupByCategory es) =
     (if c \<in> category ` set es
      then [\<lparr>g_category = c,
             g_totalTime = sum_list (map duration (filter (\<lambda>e. category e = c) es)),
             g_entryCount = length (filter (\<lambda>e. category e = c) es),
             g_uniqueWebsiteCount = length (remdups (map hostname (filter (\<lambda>e. category e = c) es)))\<rparr>]
      else [])"
proof -
  have d: "distinct (remdups (map category es))" by simp
  have "filter (\<lambda>g. g_category g = c) (groupByCategory es)
      = map (\<lambda>c. let members = filter (\<lambda>e. category e = c) es
              in \<lparr>g_category = c,
                  g_totalTime = sum_list (map duration members),
                  g_entryCount = length members,
                  g_uniqueWebsiteCount = length (remdups (map hostname members))\<rparr>)
          (filter (\<lambda>k. k = c) (remdups (map category es)))"
    by (simp add: groupByCategory_def filter_map comp_def Let_def)
  moreover have "filter (\<lambda>k. k = c) (remdups (map category es))
      = (if c \<in> category ` set es then [c] else [])"
    using filter_eq_distinct [of "remdups (map category es)" c] by simp
  ultimately show ?thesis by (simp add: Let_def)
qed


lemma summaryTotals_eq:
  "summaryTotals (groupByCategory es) =
     (sum_list (map duration es),
      sum_list (map duration (filter (\<lambda>e. category e = ''productive'') es)))"
proof -
  have "filter (\<lambda>e. category e = ''productive'') es = []" if "''productive'' \<notin> category ` set es"
    using that by (force simp: filter_empty_conv)
  then show ?thesis
    unfolding summaryTotals_def fold_totals
    by (simp add: groups_total productive_group)
qed

lemma sum_filter_le:
  "\<forall>e\<in>set es. 0 \<le> duration e \<Longrightarrow>
   0 \<le> sum_list (map duration (filter P es)) \<and>
   sum_list (map duration (filter P es)) \<le> sum_list (map duration es)"
  by (induction es) auto

lemma getAnalyticsSummary_Success:
  fixes q :: summaryQuery and Date_parse :: "string \<Rightarrow> int option" and invalidDate :: int
  defines "matching \<equiv>
    pipelineFilter Date_parse invalidDate (s_startDate q) (s_endDate q) (s_userId q)"
  assumes "optionally isISO8601 (s_startDate q)" and "optionally isISO8601 (s_endDate q)"
  shows "getAnalyticsSummary isISO8601 Date_parse invalidDate q db =
     Success
       \<lparr>totalTime = sum_list (map duration (filter matching db)),
        productiveTime =
          sum_list (map duration (filter (\<lambda>e. category e = ''productive'') (filter matching db))),
        productivityScore =
          score (sum_list (map duration (filter (\<lambda>e. category e = ''productive'') (filter matching db))))
            (sum_list (map duration (filter matching db))),
        categoryBreakdown = groupByCategory (filter matching db)\<rparr>"
  using assms(2,3) by (simp add: getAnalyticsSummary_def summaryTotals_eq matching_def Let_def)

text \<open>
  What the summary does give.  With every stored duration at least one second, as the
  schema demands, the summary of the matching entries reports their total time over all
  categories and the total of the productive ones, and a score that is \<open>0\<close> when the
  total is \<open>0\<close> and otherwise \<^verbatim>\<open>Math.round\<close> of the double product by 100 of the double
  quotient of the two totals.  The score is an integer from 0 to 100, and 0 when no
  entry matches.  For a total below \<open>2\<^sup>4\<^sup>4\<close> seconds it is the exact percentage rounded
  half up, unless that percentage ends in \<open>.5\<close>: then it is that rounding or one less.
\<close>

lemma summary_score:
  fixes q :: summaryQuery and Date_parse :: "string \<Rightarrow> int option" and invalidDate :: int
  defines "matching \<equiv>
    pipelineFilter Date_parse invalidDate (s_startDate q) (s_endDate q) (s_userId q)"
  assumes schema: "\<forall>e\<in>set db. 1 \<le> duration e"
    and valid: "optionally isISO8601 (s_startDate q) \<and> optionally isISO8601 (s_endDate q)"
  shows "\<exists>body.
      getAnalyticsSummary isISO8601 Date_parse invalidDate q db = Success body \<and>
      totalTime body = sum_list (map duration (filter matching db)) \<and>
      productiveTime body =
        sum_list (map duration (filter (\<lambda>e. category e = ''productive'') (filter matching db))) \<and>
      productivityScore body =
        (if totalTime body = 0 then 0
         else Math_round
                (double (double (of_int (productiveTime body) / of_int (totalTime body)) * 100))) \<and>
      0 \<le> productivityScore body \<and> productivityScore body \<le> 100 \<and>
      (filter matching db = [] \<longrightarrow> productivityScore body = 0) \<and>
      (0 < totalTime body \<and> totalTime body < 2 ^ 44 \<longrightarrow>
         (\<not> 2 * totalTime body dvd 200 * productiveTime body + totalTime body \<longrightarrow>
            productivityScore body =
              Math_round (100 * (of_int (productiveTime body) / of_int (totalTime body)))) \<and>
         (productivityScore body =
            Math_round (100 * (of_int (productiveTime body) / of_int (totalTime body))) \<or>
          productivityScore body =
            Math_round (100 * (of_int (productiveTime body) / of_int (totalTime body))) - 1))"
proof -
  let ?es = "filter matching db"
  let ?t = "sum_list (map duration ?es)"
  let ?p = "sum_list (map duration (filter (\<lambda>e. category e = ''productive'') ?es))"
  let ?body = "\<lparr>totalTime = ?t, productiveTime = ?p, productivityScore = score ?p ?t,
                 categoryBreakdown = groupByCategory ?es\<rparr>"
  have res: "getAnalyticsSummary isISO8601 Date_parse invalidDate q db = Success ?body"
    unfolding matching_def by (rule getAnalyticsSummary_Success) (simp_all add: valid)
  have nonneg: "\<forall>e\<in>set ?es. 0 \<le> duration e"
    using schema by auto
  have pt: "0 \<le> ?p \<and> ?p \<le> ?t"
    using sum_filter_le [OF nonneg] .
  then have t0: "0 \<le> ?t" by simp
  have range: "0 \<le> score ?p ?t \<and> score ?p ?t \<le> 100"
    using pt by (intro score_range) simp_all
  have formula: "score ?p ?t =
      (if ?t = 0 then 0 else Math_round (double (double (of_int ?p / of_int ?t) * 100)))"
    using t0 by (simp add: score_def js_div_def js_mul_def)
  have empty: "filter matching db = [] \<longrightarrow> score ?p ?t = 0"
    by (simp add: score_def)
  have near: "0 < ?t \<and> ?t < 2 ^ 44 \<longrightarrow>
         (\<not> 2 * ?t dvd 200 * ?p + ?t \<longrightarrow>
            score ?p ?t = Math_round (100 * (of_int ?p / of_int ?t))) \<and>
         (score ?p ?t = Math_round (100 * (of_int ?p / of_int ?t)) \<or>
          score ?p ?t = Math_round (100 * (of_int ?p / of_int ?t)) - 1)"
    using score_near_percentage [of ?p ?t] pt by blast
  show ?thesis
  proof (intro exI [of _ ?body] conjI)
    show "getAnalyticsSummary isISO8601 Date_parse invalidDate q db = Success ?body"
      by (fact res)
    show "totalTime ?body = ?t" and "productiveTime ?body = ?p"
      by (simp_all only: summaryBody.select_convs)
    show "productivityScore ?body =
        (if totalTime ?body = 0 then 0
         else Math_round
                (double (double (of_int (productiveTime ?body) / of_int (totalTime ?body)) * 100)))"
      by (simp only: summaryBody.select_convs formula)
    show "0 \<le> productivityScore ?body" and "productivityScore ?body \<le> 100"
      using range by (simp_all only: summaryBody.select_convs)
    show "filter matching db = [] \<longrightarrow> productivityScore ?body = 0"
      using empty by (simp only: summaryBody.select_convs)
    show "0 < totalTime ?body \<and> totalTime ?body < 2 ^ 44 \<longrightarrow>
         (\<not> 2 * totalTime ?body dvd 200 * productiveTime ?body + totalTime ?body \<longrightarrow>
            productivityScore ?body =
              Math_round (100 * (of_int (productiveTime ?body) / of_int (totalTime ?body)))) \<and>
         (productivityScore ?body =
            Math_round (100 * (of_int (productiveTime ?body) / of_int (totalTime ?body))) \<or>
          productivityScore ?body =
            Math_round (100 * (of_int (productiveTime ?body) / of_int (totalTime ?body))) - 1)"
      using near by (simp only: summaryBody.select_convs)
  qed
qed

text \<open>
  The scenario: 120 seconds on a productive site and 60 on an unproductive one give a
  total of 180, a productive time of 120 and a score of 67.  A bound that passes the
  validator and is no date does not stop the summary: with 0 for the invalid date, a
  lower bound of that kind lets every entry through.
\<close>

lemma scenario_summary:
  "getAnalyticsSummary isSampleDate sampleDates 0 allTime scenarioLog =
     Success
       \<lparr>totalTime = 180, productiveTime = 120, productivityScore = 67,
        categoryBreakdown =
          [\<lparr>g_category = ''productive'', g_totalTime = 120, g_entryCount = 1,
            g_uniqueWebsiteCount = 1\<rparr>,
           \<lparr>g_category = ''unproductive'', g_totalTime = 60, g_entryCount = 1,
            g_uniqueWebsiteCount = 1\<rparr>]\<rparr>"
  by code_simp

lemma summary_with_invalid_bound:
  "getAnalyticsSummary isSampleISO8601 sampleDates 0 (allTime\<lparr>s_startDate := Some ''2024-W01''\<rparr>)
     scenarioLog =
     Success
       \<lparr>totalTime = 180, productiveTime = 120, productivityScore = 67,
        categoryBreakdown =
          [\<lparr>g_category = ''productive'', g_totalTime = 120, g_entryCount = 1,
            g_uniqueWebsiteCount = 1\<rparr>,
           \<lparr>g_category = ''unproductive'', g_totalTime = 60, g_entryCount = 1,
            g_uniqueWebsiteCount = 1\<rparr>]\<rparr>"
  by code_simp

text \<open>
  \<^bold>\<open>C5\<close> fails in the code.  The claim is that the score is the percentage
  \<open>100 \<times> productiveTotal / grandTotal\<close>, rounded.  With 23 productive seconds out of 40
  the percentage is 57.5, which rounds to 58 (upwards, and to the even neighbour as
  well).  The route reports the two totals as claimed, and a score of 57: it divides
  first, the quotient 23/40 is not a double, the nearest double is smaller, and its
  product by 100 rounds to the double just below 57.5.  Multiplying first, as the claim
  has it, gives 2300/40, which is 57.5 exactly, and 58.
\<close>

theorem score_is_rounded_twice:
  "getAnalyticsSummary isSampleDate sampleDates 0 allTime tieLog =
     Success
       \<lparr>totalTime = 40, productiveTime = 23, productivityScore = 57,
        categoryBreakdown =
          [\<lparr>g_category = ''productive'', g_totalTime = 23, g_entryCount = 1,
            g_uniqueWebsiteCount = 1\<rparr>,
           \<lparr>g_category = ''unproductive'', g_totalTime = 17, g_entryCount = 1,
            g_uniqueWebsiteCount = 1\<rparr>]\<rparr> \<and>
   Math_round (100 * 23 / 40) = 58 \<and> roundHalfEven (100 * 23 / 40) = 58 \<and>
   Math_round (js_div (js_mul 100 23) 40) = 58"
  by code_simp

end
